theory Spec2Isabelle
  imports Main "HOL-Library.Word"
begin

unbundle bit_operations_syntax

section \<open>The generic loader of hw/core/generic-loader.c\<close>

text \<open>
  The device has two entry points: \<open>generic_loader_realize\<close> (setup) and
  \<open>generic_loader_reset\<close> (the reset callback). Both work on the device state
  \<open>GenericLoaderState\<close> and on the surrounding machine: the reset-callback registry,
  the CPUs and the address spaces. The machine is an explicit value (\<open>world\<close>) that
  every operation takes and returns; every call into a collaborator is also appended
  to a trace, so that "what has been performed" can be stated.
\<close>

subsection \<open>Byte order of the host\<close>

text \<open>
  Modelled from the spec: the byte-order macros of include/qemu/bswap.h are not among
  the sources; the specification has the literal converted "to the selected byte order
  at setup time". \<open>bswap64\<close> reverses the eight bytes of a 64-bit value;
  \<open>cpu_to_be64\<close> and \<open>cpu_to_le64\<close> swap exactly when the host's byte order
  differs from the requested one. \<open>host_bytes\<close> is the object representation of a
  \<open>uint64_t\<close> in host memory, lowest address first: what
  \<open>memcpy(buf, &x, 8)\<close> and \<open>(uint8_t *)&x\<close> read.
\<close>

definition bswap64 :: "64 word \<Rightarrow> 64 word" where
  "bswap64 x =
     (push_bit 56 (x AND 0xff) OR push_bit 40 (x AND 0xff00) OR
      push_bit 24 (x AND 0xff0000) OR push_bit 8 (x AND 0xff000000) OR
      (drop_bit 8 x AND 0xff000000) OR (drop_bit 24 x AND 0xff0000) OR
      (drop_bit 40 x AND 0xff00) OR (drop_bit 56 x AND 0xff))"

definition le_bytes :: "64 word \<Rightarrow> 8 word list" where
  "le_bytes v = map (\<lambda>i. ucast (drop_bit (8 * i) v)) [0..<8]"

definition be_bytes :: "64 word \<Rightarrow> 8 word list" where
  "be_bytes v = rev (le_bytes v)"

definition cpu_to_be64 :: "bool \<Rightarrow> 64 word \<Rightarrow> 64 word" where
  "cpu_to_be64 host_be x = (if host_be then x else bswap64 x)"

definition cpu_to_le64 :: "bool \<Rightarrow> 64 word \<Rightarrow> 64 word" where
  "cpu_to_le64 host_be x = (if host_be then bswap64 x else x)"

definition host_bytes :: "bool \<Rightarrow> 64 word \<Rightarrow> 8 word list" where
  "host_bytes host_be x = (if host_be then be_bytes x else le_bytes x)"

subsection \<open>The machine: CPUs, address spaces, reset registry\<close>

text \<open>
  Modelled from the spec: the CPU abstraction, the address-space write, the image
  loaders and the reset-callback registry are collaborators whose code is not part of
  generic-loader.c (section 6 of the specification). A CPU handle is the CPU's index in
  the system-wide list, \<open>None\<close> is the null pointer. A CPU exposes a full reset (back
  to its reset values), a program-counter override, an optional register write by index
  (the class method may be absent) and its address space. An address space is a byte map
  over 64-bit addresses; a write stores \<open>len\<close> bytes at consecutive addresses.
\<close>

record MemTxAttrs =
  unspecified :: bool
  secure :: bool
  user :: bool
  debug :: bool
  requester_id :: "16 word"

record CPUState =
  pc :: "64 word"
  gdb_regs :: "nat \<Rightarrow> 8 word list"
  reset_pc :: "64 word"
  reset_regs :: "nat \<Rightarrow> 8 word list"
  has_gdb_write_register :: bool
  cpu_as :: nat

type_synonym memory = "nat \<Rightarrow> 64 word \<Rightarrow> 8 word"

datatype event =
    RegisterReset
  | UnregisterReset
  | CpuReset nat
  | SetPc nat "64 word"
  | GdbWriteRegister nat nat "8 word list"
  | AddressSpaceWrite nat "64 word" MemTxAttrs "8 word list"
  | LoadElf string bool "nat option" int "64 word option"
  | LoadUimage string "nat option" int "64 word option"
  | LoadHex string "nat option" int "64 word option"
  | LoadRaw string "64 word" "64 word" "nat option" int

record world =
  reset_entries :: nat
  cpus :: "CPUState list"
  mem :: memory
  trace :: "event list"

definition qemu_register_reset_loader :: "world \<Rightarrow> world" where
  "qemu_register_reset_loader w =
     w\<lparr>reset_entries := Suc (reset_entries w), trace := trace w @ [RegisterReset]\<rparr>"

definition qemu_unregister_reset_loader :: "world \<Rightarrow> world" where
  "qemu_unregister_reset_loader w =
     w\<lparr>reset_entries := reset_entries w - 1, trace := trace w @ [UnregisterReset]\<rparr>"

definition qemu_get_cpu :: "world \<Rightarrow> int \<Rightarrow> nat option" where
  "qemu_get_cpu w i = (if 0 \<le> i \<and> nat i < length (cpus w) then Some (nat i) else None)"

definition first_cpu :: "world \<Rightarrow> nat option" where
  "first_cpu w = (if cpus w = [] then None else Some 0)"

definition cpu_reset :: "nat \<Rightarrow> world \<Rightarrow> world" where
  "cpu_reset c w =
     w\<lparr>cpus := (cpus w)[c := (cpus w ! c)\<lparr>pc := reset_pc (cpus w ! c),
                                         gdb_regs := reset_regs (cpus w ! c)\<rparr>],
       trace := trace w @ [CpuReset c]\<rparr>"

definition cpu_set_pc :: "nat \<Rightarrow> 64 word \<Rightarrow> world \<Rightarrow> world" where
  "cpu_set_pc c a w =
     w\<lparr>cpus := (cpus w)[c := (cpus w ! c)\<lparr>pc := a\<rparr>], trace := trace w @ [SetPc c a]\<rparr>"

definition gdb_write_register :: "nat \<Rightarrow> 8 word list \<Rightarrow> nat \<Rightarrow> world \<Rightarrow> world" where
  "gdb_write_register c buf i w =
     w\<lparr>cpus := (cpus w)[c := (cpus w ! c)\<lparr>gdb_regs := (gdb_regs (cpus w ! c))(i := buf)\<rparr>],
       trace := trace w @ [GdbWriteRegister c i buf]\<rparr>"

definition write_bytes :: "(64 word \<Rightarrow> 8 word) \<Rightarrow> 64 word \<Rightarrow> 8 word list \<Rightarrow> 64 word \<Rightarrow> 8 word" where
  "write_bytes m a bs = (\<lambda>x. if unat (x - a) < length bs then bs ! unat (x - a) else m x)"

definition address_space_rw ::
  "nat \<Rightarrow> 64 word \<Rightarrow> MemTxAttrs \<Rightarrow> 8 word list \<Rightarrow> nat \<Rightarrow> world \<Rightarrow> world" where
  "address_space_rw asp a at buf len w =
     w\<lparr>mem := (mem w)(asp := write_bytes (mem w asp) a (take len buf)),
       trace := trace w @ [AddressSpaceWrite asp a at (take len buf)]\<rparr>"

text \<open>
  Modelled from the spec: each image loader "returns a byte count (negative signals
  failure) and optionally an entry address", and changes the memory it loads into. The
  loaders, the byte orders, the machine's memory size and the "machine ready" predicate
  are parameters of the development. \<open>entry_indeterminate\<close> is the value of the
  uninitialised local variable \<open>entry\<close> of \<open>generic_loader_realize\<close>.
\<close>

record load_result =
  ld_size :: int
  ld_entry :: "64 word option"
  ld_mem :: memory

record host =
  host_big_endian :: bool
  target_words_bigendian :: bool
  ram_size :: "64 word"
  machine_ready :: bool
  entry_indeterminate :: "64 word"
  load_elf_as :: "string \<Rightarrow> bool \<Rightarrow> nat option \<Rightarrow> memory \<Rightarrow> load_result"
  load_uimage_as :: "string \<Rightarrow> nat option \<Rightarrow> memory \<Rightarrow> load_result"
  load_targphys_hex_as :: "string \<Rightarrow> nat option \<Rightarrow> memory \<Rightarrow> load_result"
  load_image_targphys_as :: "string \<Rightarrow> 64 word \<Rightarrow> 64 word \<Rightarrow> nat option \<Rightarrow> memory \<Rightarrow> int \<times> memory"

subsection \<open>The device state\<close>

text \<open>
  Modelled from the spec: the declaration of \<open>GenericLoaderState\<close> is in
  hw/core/generic-loader.h, which is not among the sources. The fields are those that
  generic-loader.c uses, with the widths that \<open>generic_loader_props\<close> declares
  and, for the register defaults, 31 slots of 64 bits (section 3 of the specification).
  The nested \<open>attrs\<close> struct is flattened, the field \<open>file\<close> is \<open>file_name\<close>
  (a null string is \<open>None\<close>), and the two arrays of 31 elements are lists.
  \<open>CPU_NONE\<close> is the default of \<open>cpu-num\<close>.
\<close>

record GenericLoaderState =
  cpu :: "nat option"
  addr :: "64 word"
  data :: "64 word"
  data_len :: "8 word"
  cpu_num :: "32 word"
  file_name :: "string option"
  reg :: "string option"
  force_raw :: bool
  data_be :: bool
  set_pc :: bool
  attrs_secure :: bool
  attrs_debug :: bool
  attrs_requester_id :: "16 word"
  register_defaults :: "64 word list"
  has_register_defaults :: "bool list"

definition CPU_NONE :: "32 word" where
  "CPU_NONE = 0xFFFFFFFF"

text \<open>
  A process abort (failed \<open>assert\<close>), a null-pointer dereference and a conversion
  whose result C leaves undefined end the run: they are the \<open>Inl\<close> results.
\<close>

datatype fault = AssertionFailed | NullDereference | ScanUnrepresentable

subsection \<open>The reset callback\<close>

definition reset_pc_override :: "GenericLoaderState \<Rightarrow> world \<Rightarrow> fault + world" where
  "reset_pc_override s w =
     (if set_pc s then
        (case cpu s of
           None \<Rightarrow> Inl NullDereference
         | Some c \<Rightarrow> Inr (cpu_set_pc c (addr s) (cpu_reset c w)))
      else Inr w)"

fun reset_register_defaults ::
  "host \<Rightarrow> GenericLoaderState \<Rightarrow> nat list \<Rightarrow> world \<Rightarrow> fault + world" where
  "reset_register_defaults h s [] w = Inr w"
| "reset_register_defaults h s (i # is) w =
     (if has_register_defaults s ! i then
        (case cpu s of
           None \<Rightarrow> Inl NullDereference
         | Some c \<Rightarrow>
             reset_register_defaults h s is
               (if has_gdb_write_register (cpus w ! c)
                then gdb_write_register c
                       (host_bytes (host_big_endian h) (register_defaults s ! i)) i w
                else w))
      else reset_register_defaults h s is w)"

definition reset_data_write :: "host \<Rightarrow> GenericLoaderState \<Rightarrow> world \<Rightarrow> fault + world" where
  "reset_data_write h s w =
     (if data_len s \<noteq> 0 then
        (if unat (data_len s) < 8 then
           (case cpu s of
              None \<Rightarrow> Inl NullDereference
            | Some c \<Rightarrow>
                Inr (address_space_rw (cpu_as (cpus w ! c)) (addr s)
                       \<lparr>unspecified = False, secure = attrs_secure s, user = False,
                        debug = attrs_debug s, requester_id = attrs_requester_id s\<rparr>
                       (host_bytes (host_big_endian h) (data s)) (unat (data_len s)) w))
         else Inl AssertionFailed)
      else Inr w)"

definition generic_loader_reset :: "host \<Rightarrow> GenericLoaderState \<Rightarrow> world \<Rightarrow> fault + world" where
  "generic_loader_reset h s w =
     (case reset_pc_override s w of
        Inl f \<Rightarrow> Inl f
      | Inr w1 \<Rightarrow>
          (case reset_register_defaults h s [0..<31] w1 of
             Inl f \<Rightarrow> Inl f
           | Inr w2 \<Rightarrow> reset_data_write h s w2))"

subsection \<open>Setup\<close>

text \<open>
  One constructor for each \<open>error_setg\<close> message of \<open>generic_loader_realize\<close>, in
  the order of the source.
\<close>

datatype error =
    FileWithData
  | ForceRawWithData
  | DataLenMissing
  | DataLenTooBig
  | DataWithImage
  | DataWithPC
  | CpuNumMissing
  | NoArguments
  | CpuNonexistent "32 word"
  | CannotLoadImage string
  | UnsupportedRegister string

text \<open>
  The option checks (lines 101 to 148): the result is the error, or the value that
  \<open>set_pc\<close> has when the checks are passed.
\<close>

definition data_options :: "GenericLoaderState \<Rightarrow> bool" where
  "data_options s = (data s \<noteq> 0 \<or> data_len s \<noteq> 0 \<or> data_be s)"

definition check_options :: "GenericLoaderState \<Rightarrow> error + bool" where
  "check_options s =
     (if data_options s then
        (if file_name s \<noteq> None then Inl FileWithData
         else if force_raw s then Inl ForceRawWithData
         else if data_len s = 0 then Inl DataLenMissing
         else if unat (data_len s) > 8 then Inl DataLenTooBig
         else Inr False)
      else if file_name s \<noteq> None \<or> force_raw s then
        (if data_options s then Inl DataWithImage
         else if cpu_num s \<noteq> CPU_NONE then Inr True
         else Inr False)
      else if addr s \<noteq> 0 then
        (if data_options s then Inl DataWithPC
         else if cpu_num s = CPU_NONE then Inl CpuNumMissing
         else Inr True)
      else Inl NoArguments)"

text \<open>
  The CPU lookup (lines 152 to 161). \<open>qemu_get_cpu\<close> takes an \<open>int\<close>: the 32-bit
  \<open>cpu_num\<close> is read as signed. The result of the lookup is stored before it is tested.
\<close>

definition resolve_cpu :: "GenericLoaderState \<Rightarrow> world \<Rightarrow> error option \<times> GenericLoaderState" where
  "resolve_cpu s w =
     (if cpu_num s \<noteq> CPU_NONE then
        (case qemu_get_cpu w (sint (cpu_num s)) of
           None \<Rightarrow> (Some (CpuNonexistent (cpu_num s)), s\<lparr>cpu := None\<rparr>)
         | Some c \<Rightarrow> (None, s\<lparr>cpu := Some c\<rparr>))
      else (None, s\<lparr>cpu := first_cpu w\<rparr>))"

text \<open>
  The image loading (lines 165 to 193). An attempt is run only while \<open>size\<close> is
  negative; it replaces \<open>size\<close>, stores an entry point into \<open>entry\<close> when the loader
  reports one, and is recorded in the trace with the size and the entry point it returned.
\<close>

definition attempt_elf ::
  "host \<Rightarrow> string \<Rightarrow> nat option \<Rightarrow> int \<times> 64 word \<times> world \<Rightarrow> int \<times> 64 word \<times> world" where
  "attempt_elf h f asp st =
     (case st of (sz, entry, w) \<Rightarrow>
        (let r = load_elf_as h f (target_words_bigendian h) asp (mem w)
         in (ld_size r,
             (case ld_entry r of None \<Rightarrow> entry | Some e \<Rightarrow> e),
             w\<lparr>mem := ld_mem r,
               trace := trace w @ [LoadElf f (target_words_bigendian h) asp (ld_size r) (ld_entry r)]\<rparr>)))"

definition attempt_uimage ::
  "host \<Rightarrow> string \<Rightarrow> nat option \<Rightarrow> int \<times> 64 word \<times> world \<Rightarrow> int \<times> 64 word \<times> world" where
  "attempt_uimage h f asp st =
     (case st of (sz, entry, w) \<Rightarrow>
        (if sz < 0 then
           (let r = load_uimage_as h f asp (mem w)
            in (ld_size r,
                (case ld_entry r of None \<Rightarrow> entry | Some e \<Rightarrow> e),
                w\<lparr>mem := ld_mem r, trace := trace w @ [LoadUimage f asp (ld_size r) (ld_entry r)]\<rparr>))
         else st))"

definition attempt_hex ::
  "host \<Rightarrow> string \<Rightarrow> nat option \<Rightarrow> int \<times> 64 word \<times> world \<Rightarrow> int \<times> 64 word \<times> world" where
  "attempt_hex h f asp st =
     (case st of (sz, entry, w) \<Rightarrow>
        (if sz < 0 then
           (let r = load_targphys_hex_as h f asp (mem w)
            in (ld_size r,
                (case ld_entry r of None \<Rightarrow> entry | Some e \<Rightarrow> e),
                w\<lparr>mem := ld_mem r, trace := trace w @ [LoadHex f asp (ld_size r) (ld_entry r)]\<rparr>))
         else st))"

definition load_file ::
  "host \<Rightarrow> GenericLoaderState \<Rightarrow> world \<Rightarrow> error option \<times> GenericLoaderState \<times> world" where
  "load_file h s w =
     (case file_name s of
        None \<Rightarrow> (None, s, w)
      | Some f \<Rightarrow>
          (let asp = (case cpu s of None \<Rightarrow> None | Some c \<Rightarrow> Some (cpu_as (cpus w ! c)));
               st = (if \<not> force_raw s
                     then attempt_hex h f asp (attempt_uimage h f asp
                            (attempt_elf h f asp (0, entry_indeterminate h, w)))
                     else (0, entry_indeterminate h, w))
           in (case st of (sz, entry, w1) \<Rightarrow>
                 (if sz < 0 \<or> force_raw s then
                    (case load_image_targphys_as h f (addr s) (ram_size h) asp (mem w1) of
                       (size2, m2) \<Rightarrow>
                         (let w2 = w1\<lparr>mem := m2,
                                     trace := trace w1 @ [LoadRaw f (addr s) (ram_size h) asp size2]\<rparr>
                          in if size2 < 0 then (Some (CannotLoadImage f), s, w2)
                             else (None, s, w2)))
                  else (None, s\<lparr>addr := entry\<rparr>, w1)))))"

text \<open>The conversion of the literal to the requested byte order (lines 196 to 200).\<close>

definition convert_data :: "host \<Rightarrow> GenericLoaderState \<Rightarrow> GenericLoaderState" where
  "convert_data h s =
     (if data_be s then s\<lparr>data := cpu_to_be64 (host_big_endian h) (data s)\<rparr>
      else s\<lparr>data := cpu_to_le64 (host_big_endian h) (data s)\<rparr>)"

text \<open>
  \<open>sscanf(s->reg, "r%d", &reg_num)\<close>: the first character must be \<open>r\<close>; the
  conversion \<open>%d\<close> skips white space, takes an optional sign and then the longest run
  of decimal digits, which must not be empty; whatever follows the digits is not read.
  The result is \<open>Inr None\<close> when no item is converted (the call does not return 1),
  \<open>Inr (Some n)\<close> when \<open>n\<close> is stored, and the fault when the number does not fit
  an \<open>int\<close>, where C leaves the behaviour undefined.
\<close>

definition isspace :: "char \<Rightarrow> bool" where
  "isspace c = (of_char c \<in> {32::nat, 9, 10, 11, 12, 13})"

definition isdigit :: "char \<Rightarrow> bool" where
  "isdigit c = (48 \<le> (of_char c :: nat) \<and> (of_char c :: nat) \<le> 57)"

definition digits_value :: "string \<Rightarrow> int" where
  "digits_value ds = foldl (\<lambda>a c. 10 * a + (int (of_char c) - 48)) 0 ds"

definition scan_sign :: "string \<Rightarrow> bool \<times> string" where
  "scan_sign cs =
     (case cs of
        [] \<Rightarrow> (False, [])
      | c # rest \<Rightarrow>
          if c = CHR ''-'' then (True, rest)
          else if c = CHR ''+'' then (False, rest)
          else (False, cs))"

definition sscanf_r_d :: "string \<Rightarrow> fault + int option" where
  "sscanf_r_d str =
     (case str of
        [] \<Rightarrow> Inr None
      | c # rest \<Rightarrow>
          if c \<noteq> CHR ''r'' then Inr None
          else
            (case scan_sign (dropWhile isspace rest) of
               (neg, rest2) \<Rightarrow>
                 (let ds = takeWhile isdigit rest2;
                      v = (if neg then - digits_value ds else digits_value ds)
                  in if ds = [] then Inr None
                     else if - (2 ^ 31) \<le> v \<and> v < 2 ^ 31 then Inr (Some v)
                     else Inl ScanUnrepresentable)))"

text \<open>The register default (lines 211 to 221).\<close>

definition store_register_default ::
  "GenericLoaderState \<Rightarrow> fault + error option \<times> GenericLoaderState" where
  "store_register_default s =
     (case reg s of
        None \<Rightarrow> Inr (None, s)
      | Some r \<Rightarrow>
          (case sscanf_r_d r of
             Inl f \<Rightarrow> Inl f
           | Inr None \<Rightarrow> Inr (Some (UnsupportedRegister r), s)
           | Inr (Some reg_num) \<Rightarrow>
               if 0 \<le> reg_num \<and> reg_num < 31 then
                 Inr (None,
                      s\<lparr>register_defaults := (register_defaults s)[nat reg_num := data s],
                        has_register_defaults := (has_register_defaults s)[nat reg_num := True]\<rparr>)
               else Inr (Some (UnsupportedRegister r), s)))"

text \<open>
  \<open>generic_loader_realize\<close>: the result is the fault that ended the run, or the error
  set in \<open>errp\<close> (\<open>None\<close> when setup succeeded) with the device state and the machine
  as the function leaves them.
\<close>

definition generic_loader_realize ::
  "host \<Rightarrow> GenericLoaderState \<Rightarrow> world \<Rightarrow> fault + error option \<times> GenericLoaderState \<times> world" where
  "generic_loader_realize h s0 w0 =
     (let s1 = s0\<lparr>set_pc := False\<rparr> in
      case check_options s1 of
        Inl e \<Rightarrow> Inr (Some e, s1, w0)
      | Inr spc \<Rightarrow>
          (let s2 = s1\<lparr>set_pc := spc\<rparr>;
               w1 = qemu_register_reset_loader w0
           in case resolve_cpu s2 w1 of
                (Some e, s3) \<Rightarrow> Inr (Some e, s3, w1)
              | (None, s3) \<Rightarrow>
                  (case load_file h s3 w1 of
                     (Some e, s4, w2) \<Rightarrow> Inr (Some e, s4, w2)
                   | (None, s4, w2) \<Rightarrow>
                       (let s5 = convert_data h s4 in
                        case (if machine_ready h then generic_loader_reset h s5 w2 else Inr w2) of
                          Inl f \<Rightarrow> Inl f
                        | Inr w3 \<Rightarrow>
                            (case store_register_default s5 of
                               Inl f \<Rightarrow> Inl f
                             | Inr (e, s6) \<Rightarrow> Inr (e, s6, w3))))))"

definition generic_loader_unrealize :: "world \<Rightarrow> world" where
  "generic_loader_unrealize w = qemu_unregister_reset_loader w"

subsection \<open>A concrete machine\<close>

text \<open>
  The state of a fresh instance: every property at the default that
  \<open>generic_loader_props\<close> gives it, every other field zero. A sample machine with
  \<open>n\<close> CPUs, CPU \<open>i\<close> on address space \<open>i\<close>. Each loader of the sample host
  accepts one file name and stores a few bytes of its own where it loads: the
  structured-executable loader \<open>kernel.elf\<close> (entry point \<open>0x40000000\<close>), the
  boot-image loader \<open>uImage\<close>, the hex-record loader \<open>fw.hex\<close> (entry point
  \<open>0x200\<close>), the raw loader \<open>blob.bin\<close> at the address it is given, when the size
  limit admits its four bytes. Every other load fails and leaves memory as it was.
\<close>

definition default_state :: GenericLoaderState where
  "default_state =
     \<lparr>cpu = None, addr = 0, data = 0, data_len = 0, cpu_num = CPU_NONE,
      file_name = None, reg = None, force_raw = False, data_be = False, set_pc = False,
      attrs_secure = False, attrs_debug = False, attrs_requester_id = 0,
      register_defaults = replicate 31 0, has_register_defaults = replicate 31 False\<rparr>"

definition sample_cpu :: "nat \<Rightarrow> CPUState" where
  "sample_cpu a =
     \<lparr>pc = 0x100, gdb_regs = (\<lambda>i. replicate 8 0xAA), reset_pc = 0,
      reset_regs = (\<lambda>i. replicate 8 0), has_gdb_write_register = True, cpu_as = a\<rparr>"

definition sample_world :: "nat \<Rightarrow> world" where
  "sample_world n =
     \<lparr>reset_entries = 0, cpus = map sample_cpu [0..<n], mem = (\<lambda>a x. 0), trace = []\<rparr>"

definition sample_store :: "nat option \<Rightarrow> 64 word \<Rightarrow> 8 word list \<Rightarrow> memory \<Rightarrow> memory" where
  "sample_store asp a bs m =
     (let i = (case asp of None \<Rightarrow> 0 | Some n \<Rightarrow> n) in m(i := write_bytes (m i) a bs))"

definition sample_host :: "bool \<Rightarrow> bool \<Rightarrow> host" where
  "sample_host hbe ready =
     \<lparr>host_big_endian = hbe, target_words_bigendian = False, ram_size = 0x8000000,
      machine_ready = ready, entry_indeterminate = 0xDEAD,
      load_elf_as = (\<lambda>f be asp m.
         if f = ''kernel.elf''
         then \<lparr>ld_size = 4096, ld_entry = Some 0x40000000,
               ld_mem = sample_store asp 0x40000000 [0x7F, 0x45, 0x4C, 0x46] m\<rparr>
         else \<lparr>ld_size = - 1, ld_entry = None, ld_mem = m\<rparr>),
      load_uimage_as = (\<lambda>f asp m.
         if f = ''uImage''
         then \<lparr>ld_size = 64, ld_entry = Some 0x8000,
               ld_mem = sample_store asp 0x8000 [0x27, 0x05, 0x19, 0x56] m\<rparr>
         else \<lparr>ld_size = - 1, ld_entry = None, ld_mem = m\<rparr>),
      load_targphys_hex_as = (\<lambda>f asp m.
         if f = ''fw.hex''
         then \<lparr>ld_size = 2, ld_entry = Some 0x200,
               ld_mem = sample_store asp 0x200 [0x3A, 0x10] m\<rparr>
         else \<lparr>ld_size = - 1, ld_entry = None, ld_mem = m\<rparr>),
      load_image_targphys_as = (\<lambda>f a mx asp m.
         if f = ''blob.bin'' \<and> 4 \<le> unat mx
         then (4, sample_store asp a [0xB1, 0xB2, 0xB3, 0xB4] m)
         else (- 1, m))\<rparr>"

subsection \<open>Reading the trace\<close>

datatype loader_kind = Elf | Uimage | Hex | Raw

fun load_kind :: "event \<Rightarrow> loader_kind option" where
  "load_kind (LoadElf f be asp n e) = Some Elf"
| "load_kind (LoadUimage f asp n e) = Some Uimage"
| "load_kind (LoadHex f asp n e) = Some Hex"
| "load_kind (LoadRaw f a mx asp n) = Some Raw"
| "load_kind _ = None"

fun load_size :: "event \<Rightarrow> int" where
  "load_size (LoadElf f be asp n e) = n"
| "load_size (LoadUimage f asp n e) = n"
| "load_size (LoadHex f asp n e) = n"
| "load_size (LoadRaw f a mx asp n) = n"
| "load_size _ = 0"

fun load_entry :: "event \<Rightarrow> 64 word option" where
  "load_entry (LoadElf f be asp n e) = e"
| "load_entry (LoadUimage f asp n e) = e"
| "load_entry (LoadHex f asp n e) = e"
| "load_entry _ = None"

definition is_load :: "event \<Rightarrow> bool" where
  "is_load e = (load_kind e \<noteq> None)"

definition successful_load :: "event \<Rightarrow> bool" where
  "successful_load e = (load_kind e \<noteq> None \<and> 0 \<le> load_size e)"

fun is_mem_write :: "event \<Rightarrow> bool" where
  "is_mem_write (AddressSpaceWrite asp a at bs) = True"
| "is_mem_write _ = False"

text \<open>The events that an operation appended to the trace it started from.\<close>

definition new_events :: "world \<Rightarrow> world \<Rightarrow> event list" where
  "new_events w w' = drop (length (trace w)) (trace w')"

subsection \<open>The effect of a reset on one CPU\<close>

text \<open>
  What the first two steps of the reset callback do to the target CPU, as functions
  on the CPU: the reset followed by the program-counter override, and the register
  writes for the populated slots among the indices \<open>is\<close>. The proofs below show
  that the callback computes them.
\<close>

definition pc_effect :: "GenericLoaderState \<Rightarrow> CPUState \<Rightarrow> CPUState" where
  "pc_effect s x =
     (if set_pc s then x\<lparr>pc := reset_pc x, gdb_regs := reset_regs x, pc := addr s\<rparr> else x)"

definition default_regs ::
  "host \<Rightarrow> GenericLoaderState \<Rightarrow> nat list \<Rightarrow> (nat \<Rightarrow> 8 word list) \<Rightarrow> nat \<Rightarrow> 8 word list" where
  "default_regs h s is g =
     (\<lambda>i. if i \<in> set is \<and> has_register_defaults s ! i
          then host_bytes (host_big_endian h) (register_defaults s ! i)
          else g i)"

definition regs_effect :: "host \<Rightarrow> GenericLoaderState \<Rightarrow> nat list \<Rightarrow> CPUState \<Rightarrow> CPUState" where
  "regs_effect h s is x =
     (if has_gdb_write_register x then x\<lparr>gdb_regs := default_regs h s is (gdb_regs x)\<rparr> else x)"

definition cpu_effect :: "host \<Rightarrow> GenericLoaderState \<Rightarrow> CPUState \<Rightarrow> CPUState" where
  "cpu_effect h s x = regs_effect h s [0..<31] (pc_effect s x)"

text \<open>
  The three components of a setup that ran to its end, and the configurations used
  below as concrete inputs.
\<close>

definition setup_error ::
  "fault + error option \<times> GenericLoaderState \<times> world \<Rightarrow> error option" where
  "setup_error r = fst (projr r)"

definition setup_state ::
  "fault + error option \<times> GenericLoaderState \<times> world \<Rightarrow> GenericLoaderState" where
  "setup_state r = fst (snd (projr r))"

definition setup_world ::
  "fault + error option \<times> GenericLoaderState \<times> world \<Rightarrow> world" where
  "setup_world r = snd (snd (projr r))"

definition config_cpu7 :: GenericLoaderState where
  "config_cpu7 = default_state\<lparr>addr := 0x1000, cpu_num := 7\<rparr>"

definition config_len8 :: GenericLoaderState where
  "config_len8 = default_state\<lparr>addr := 0x1000, data := 0x1122334455667788, data_len := 8\<rparr>"

definition config_data_and_file :: GenericLoaderState where
  "config_data_and_file = default_state\<lparr>file_name := Some ''kernel.elf'', data_len := 4\<rparr>"

definition config_literal4 :: GenericLoaderState where
  "config_literal4 = default_state\<lparr>addr := 0x1000, data := 0x1122334455667788, data_len := 4\<rparr>"

definition config_literal4_be :: GenericLoaderState where
  "config_literal4_be = config_literal4\<lparr>data_be := True\<rparr>"

definition config_pc_cpu0 :: GenericLoaderState where
  "config_pc_cpu0 = default_state\<lparr>addr := 0x2000, cpu_num := 0\<rparr>"

definition config_missing_image :: GenericLoaderState where
  "config_missing_image = default_state\<lparr>file_name := Some ''missing.img'', addr := 0x8000\<rparr>"

definition config_hex :: GenericLoaderState where
  "config_hex = default_state\<lparr>file_name := Some ''fw.hex'', addr := 0x8000\<rparr>"

definition config_blob :: GenericLoaderState where
  "config_blob = default_state\<lparr>file_name := Some ''blob.bin'', addr := 0x8000\<rparr>"

definition config_reg_r2 :: GenericLoaderState where
  "config_reg_r2 = default_state\<lparr>reg := Some ''r2'', data := 42, cpu_num := 0\<rparr>"

definition config_reg_r2_len4 :: GenericLoaderState where
  "config_reg_r2_len4 = config_reg_r2\<lparr>addr := 0x1000, data_len := 4\<rparr>"

definition config_reg_r2x :: GenericLoaderState where
  "config_reg_r2x =
     default_state\<lparr>addr := 0x1000, data := 42, data_len := 4, reg := Some ''r2x''\<rparr>"

section \<open>Properties\<close>

lemmas realize_defs =
  generic_loader_realize_def check_options_def data_options_def CPU_NONE_def
  resolve_cpu_def qemu_get_cpu_def first_cpu_def qemu_register_reset_loader_def load_file_def
  attempt_elf_def attempt_uimage_def attempt_hex_def
  convert_data_def store_register_default_def

lemmas reset_defs =
  generic_loader_reset_def reset_pc_override_def reset_data_write_def
  address_space_rw_def cpu_set_pc_def cpu_reset_def gdb_write_register_def

lemmas sample_defs =
  default_state_def sample_world_def sample_host_def sample_cpu_def sample_store_def

lemmas setup_projections = setup_error_def setup_state_def setup_world_def

lemmas config_defs =
  config_cpu7_def config_len8_def config_data_and_file_def config_literal4_def
  config_literal4_be_def config_pc_cpu0_def config_missing_image_def
  config_hex_def config_blob_def config_reg_r2_def config_reg_r2_len4_def config_reg_r2x_def

lemmas scan_defs = sscanf_r_d_def scan_sign_def isspace_def isdigit_def digits_value_def

subsection \<open>Failed setups\<close>

text \<open>
  Claim C1 says that every failed setup leaves the device inert: the reset callback is
  not left in the registry and nothing has been written. The option checks keep to
  this, but the callback is registered before the CPU lookup, the image load and the
  register name are checked, and those failures return without removing it. On a
  machine with one CPU, a program-counter request for CPU 7 fails with "Specified boot
  CPU#7 is nonexistent" and leaves one entry in the registry.
\<close>

theorem failed_setup_stays_registered:
  "\<not> isl (generic_loader_realize (sample_host False False) config_cpu7 (sample_world 1))
   \<and> setup_error (generic_loader_realize (sample_host False False) config_cpu7 (sample_world 1))
       = Some (CpuNonexistent 7)
   \<and> reset_entries (sample_world 1) = 0
   \<and> reset_entries
         (setup_world (generic_loader_realize (sample_host False False) config_cpu7 (sample_world 1)))
       = 1
   \<and> trace (setup_world (generic_loader_realize (sample_host False False) config_cpu7 (sample_world 1)))
       = [RegisterReset]"
  by (simp add: realize_defs sample_defs setup_projections config_cpu7_def)

text \<open>
  Claim C6: whenever a data option (a non-zero literal, a non-zero length or the
  big-endian flag) comes with an image path or with force-raw, setup fails in the
  first branch of the option checks, with the error for a file or the error for
  force-raw of that branch, and leaves the machine as it was.
\<close>

theorem data_with_image_rejected:
  assumes "data s \<noteq> 0 \<or> data_len s \<noteq> 0 \<or> data_be s"
      and "file_name s \<noteq> None \<or> force_raw s"
  shows "generic_loader_realize h s w =
           Inr (Some (if file_name s \<noteq> None then FileWithData else ForceRawWithData),
                s\<lparr>set_pc := False\<rparr>, w)"
  using assms by (auto simp add: generic_loader_realize_def check_options_def data_options_def)

theorem data_with_image_rejected_witness:
  "data_len config_data_and_file = 4
   \<and> file_name config_data_and_file = Some ''kernel.elf''
   \<and> generic_loader_realize (sample_host False True) config_data_and_file (sample_world 1)
       = Inr (Some FileWithData, config_data_and_file\<lparr>set_pc := False\<rparr>, sample_world 1)"
proof -
  have a: "data_len config_data_and_file = 4"
    by (simp add: config_data_and_file_def default_state_def)
  have c: "file_name config_data_and_file = Some ''kernel.elf''"
    by (simp add: config_data_and_file_def default_state_def)
  have "data config_data_and_file \<noteq> 0 \<or> data_len config_data_and_file \<noteq> 0
          \<or> data_be config_data_and_file"
    using a by simp
  moreover have "file_name config_data_and_file \<noteq> None \<or> force_raw config_data_and_file"
    using c by simp
  ultimately show ?thesis
    using a c data_with_image_rejected [of config_data_and_file "sample_host False True" "sample_world 1"]
    by simp
qed

subsection \<open>The literal write\<close>

text \<open>
  Claim C2 says that the length check in the reset callback holds for every length
  that setup accepts, 8 included. Setup accepts a literal of length 8 (it rejects only
  lengths above 8), but the callback asserts that the length is below the size of the
  64-bit \<open>data\<close> field, that is below 8: with length 8 the reset aborts.
\<close>

theorem data_len_8_reset_aborts:
  "\<not> isl (generic_loader_realize (sample_host False False) config_len8 (sample_world 1))
   \<and> setup_error (generic_loader_realize (sample_host False False) config_len8 (sample_world 1))
       = None
   \<and> data_len (setup_state
         (generic_loader_realize (sample_host False False) config_len8 (sample_world 1))) = 8
   \<and> generic_loader_reset (sample_host False False)
         (setup_state (generic_loader_realize (sample_host False False) config_len8 (sample_world 1)))
         (setup_world (generic_loader_realize (sample_host False False) config_len8 (sample_world 1)))
       = Inl AssertionFailed"
  by (simp add: realize_defs sample_defs reset_defs setup_projections config_len8_def
        cpu_to_le64_def upt_rec)

subsection \<open>The stages of setup\<close>

lemma realize_success:
  assumes "generic_loader_realize h s0 w0 = Inr (None, s1, w1)"
  obtains spc s3 s4 w2 where
    "check_options (s0\<lparr>set_pc := False\<rparr>) = Inr spc"
    "resolve_cpu (s0\<lparr>set_pc := spc\<rparr>) (qemu_register_reset_loader w0) = (None, s3)"
    "load_file h s3 (qemu_register_reset_loader w0) = (None, s4, w2)"
    "(if machine_ready h then generic_loader_reset h (convert_data h s4) w2 else Inr w2) = Inr w1"
    "store_register_default (convert_data h s4) = Inr (None, s1)"
  using assms
  unfolding generic_loader_realize_def Let_def
  by (auto split: sum.splits prod.splits option.splits)

lemma resolve_cpu_ok:
  assumes "resolve_cpu s w = (None, s')"
  shows "s' = s\<lparr>cpu := (if cpu_num s \<noteq> CPU_NONE then Some (nat (sint (cpu_num s))) else first_cpu w)\<rparr>"
    and "cpu_num s \<noteq> CPU_NONE \<Longrightarrow> 0 \<le> sint (cpu_num s) \<and> nat (sint (cpu_num s)) < length (cpus w)"
  using assms
  by (auto simp add: resolve_cpu_def qemu_get_cpu_def split: if_splits option.splits)

lemma load_file_state:
  assumes "load_file h s w = (e, s', w')"
  shows "\<exists>a. s' = s\<lparr>addr := a\<rparr>"
proof (cases "file_name s")
  case None
  with assms have "s' = s\<lparr>addr := addr s\<rparr>" by (simp add: load_file_def)
  then show ?thesis by blast
next
  case (Some f)
  with assms show ?thesis
    unfolding load_file_def Let_def
    by (auto split: prod.splits if_splits intro: exI [of _ "addr s"])
qed

lemma convert_data_state:
  "\<exists>d. convert_data h s = s\<lparr>data := d\<rparr>"
  by (auto simp add: convert_data_def)

lemma store_register_default_cpu:
  assumes "store_register_default s = Inr (e, s')"
  shows "cpu s' = cpu s" "set_pc s' = set_pc s" "addr s' = addr s" "data s' = data s"
    "data_len s' = data_len s"
  using assms
  by (auto simp add: store_register_default_def split: option.splits sum.splits if_splits)

lemma qemu_register_reset_loader_cpus [simp]:
  "cpus (qemu_register_reset_loader w) = cpus w"
  by (simp add: qemu_register_reset_loader_def)

lemma first_cpu_register [simp]:
  "first_cpu (qemu_register_reset_loader w) = first_cpu w"
  by (simp add: first_cpu_def)

lemma rejected_options_leave_no_trace:
  assumes "check_options (s\<lparr>set_pc := False\<rparr>) = Inl e"
  shows "generic_loader_realize h s w = Inr (Some e, s\<lparr>set_pc := False\<rparr>, w)"
  using assms by (simp add: generic_loader_realize_def)

lemma realize_load_failure:
  assumes "check_options (s0\<lparr>set_pc := False\<rparr>) = Inr spc"
      and "resolve_cpu (s0\<lparr>set_pc := spc\<rparr>) (qemu_register_reset_loader w0) = (None, s)"
      and "load_file h s (qemu_register_reset_loader w0) = (Some e, s', w')"
  shows "generic_loader_realize h s0 w0 = Inr (Some e, s', w')"
  using assms by (simp add: generic_loader_realize_def)

lemma realize_completes:
  assumes "check_options (s0\<lparr>set_pc := False\<rparr>) = Inr spc"
      and "resolve_cpu (s0\<lparr>set_pc := spc\<rparr>) (qemu_register_reset_loader w0) = (None, s3)"
      and "load_file h s3 (qemu_register_reset_loader w0) = (None, s4, w2)"
      and "(if machine_ready h then generic_loader_reset h (convert_data h s4) w2 else Inr w2) = Inr w3"
      and "store_register_default (convert_data h s4) = Inr (e, s6)"
  shows "generic_loader_realize h s0 w0 = Inr (e, s6, w3)"
  using assms by (simp add: generic_loader_realize_def Let_def)

lemma setup_result:
  "\<not> isl r \<Longrightarrow> r = Inr (setup_error r, setup_state r, setup_world r)"
  by (cases r) (simp_all add: setup_projections)

subsection \<open>The resolved CPU\<close>




subsection \<open>The image loader sequence\<close>

lemma successful_load_simps [simp]:
  "successful_load (LoadElf f be asp n e) = (0 \<le> n)"
  "successful_load (LoadUimage f asp n e) = (0 \<le> n)"
  "successful_load (LoadHex f asp n e) = (0 \<le> n)"
  "successful_load (LoadRaw f a mx asp n) = (0 \<le> n)"
  "successful_load RegisterReset = False"
  by (simp_all add: successful_load_def)

lemma load_file_trace:
  assumes f: "file_name s = Some f" and ld: "load_file h s w = (err, s', w')"
  defines "evs \<equiv> new_events w w'"
  shows "trace w' = trace w @ evs"
    and "evs \<noteq> []"
    and "map load_kind evs
           = map Some (take (length evs) (if force_raw s then [Raw] else [Elf, Uimage, Hex, Raw]))"
    and "\<forall>e \<in> set (butlast evs). load_size e < 0"
    and "load_size (last evs) < 0 \<longrightarrow> load_kind (last evs) = Some Raw"
    and "\<forall>e \<in> set evs. load_kind e = Some Raw \<longrightarrow>
             e = LoadRaw f (addr s) (ram_size h)
                   (case cpu s of None \<Rightarrow> None | Some c \<Rightarrow> Some (cpu_as (cpus w ! c)))
                   (load_size e)"
    and "err = (if load_size (last evs) < 0 then Some (CannotLoadImage f) else None)"
    and "load_kind (last evs) = Some Raw \<longrightarrow> s' = s"
    and "load_kind (last evs) \<noteq> Some Raw \<longrightarrow>
             (\<forall>a. load_entry (last evs) = Some a \<longrightarrow> s' = s\<lparr>addr := a\<rparr>)"
    and "length (filter successful_load evs) = (if err = None then 1 else 0)"
  using f ld
  unfolding load_file_def Let_def evs_def new_events_def attempt_elf_def attempt_uimage_def
    attempt_hex_def
  by (auto split: prod.splits if_splits)

subsection \<open>What the reset callback does not do\<close>

lemma reset_register_defaults_none:
  "\<forall>i \<in> set is. \<not> has_register_defaults s ! i \<Longrightarrow> reset_register_defaults h s is w = Inr w"
  by (induction "is") simp_all

lemma reset_register_defaults_trace:
  "reset_register_defaults h s is w = Inr w' \<Longrightarrow>
     \<exists>evs. trace w' = trace w @ evs \<and> (\<forall>e \<in> set evs. \<not> is_load e \<and> \<not> is_mem_write e)"
proof (induction "is" arbitrary: w)
  case Nil
  then show ?case by simp
next
  case (Cons i "is")
  show ?case
  proof (cases "has_register_defaults s ! i")
    case False
    with Cons show ?thesis by simp
  next
    case True
    with Cons.prems obtain c where c: "cpu s = Some c"
      by (auto split: option.splits)
    let ?w = "if has_gdb_write_register (cpus w ! c)
              then gdb_write_register c (host_bytes (host_big_endian h) (register_defaults s ! i)) i w
              else w"
    from Cons.prems True c have "reset_register_defaults h s is ?w = Inr w'" by simp
    from Cons.IH [OF this] obtain evs where
      evs: "trace w' = trace ?w @ evs" "\<forall>e \<in> set evs. \<not> is_load e \<and> \<not> is_mem_write e"
      by blast
    have "\<exists>pre. trace ?w = trace w @ pre \<and> (\<forall>e \<in> set pre. \<not> is_load e \<and> \<not> is_mem_write e)"
      by (simp add: gdb_write_register_def is_load_def)
    then obtain pre where pre: "trace ?w = trace w @ pre"
      "\<forall>e \<in> set pre. \<not> is_load e \<and> \<not> is_mem_write e" by blast
    from evs pre have "trace w' = trace w @ (pre @ evs)
        \<and> (\<forall>e \<in> set (pre @ evs). \<not> is_load e \<and> \<not> is_mem_write e)"
      by auto
    then show ?thesis by blast
  qed
qed

lemma reset_no_load:
  assumes "generic_loader_reset h s w = Inr w'"
  shows "filter is_load (new_events w w') = []"
proof -
  from assms obtain w1 w2 where
    a: "reset_pc_override s w = Inr w1"
    and b: "reset_register_defaults h s [0..<31] w1 = Inr w2"
    and c: "reset_data_write h s w2 = Inr w'"
    by (auto simp add: generic_loader_reset_def split: sum.splits)
  from a have "\<exists>e1. trace w1 = trace w @ e1 \<and> (\<forall>e \<in> set e1. \<not> is_load e)"
    by (auto simp add: reset_pc_override_def cpu_set_pc_def cpu_reset_def is_load_def
          split: if_splits option.splits)
  then obtain e1 where e1: "trace w1 = trace w @ e1" "\<forall>e \<in> set e1. \<not> is_load e" by blast
  from reset_register_defaults_trace [OF b]
  obtain e2 where e2: "trace w2 = trace w1 @ e2" "\<forall>e \<in> set e2. \<not> is_load e" by blast
  from c have "\<exists>e3. trace w' = trace w2 @ e3 \<and> (\<forall>e \<in> set e3. \<not> is_load e)"
    by (auto simp add: reset_data_write_def address_space_rw_def is_load_def
          split: if_splits option.splits)
  then obtain e3 where e3: "trace w' = trace w2 @ e3" "\<forall>e \<in> set e3. \<not> is_load e" by blast
  from e1 e2 e3 have "new_events w w' = e1 @ e2 @ e3"
    by (simp add: new_events_def)
  with e1 e2 e3 show ?thesis by auto
qed

lemma reset_idle:
  assumes "\<not> set_pc s" "data_len s = 0" "\<forall>i<31. \<not> has_register_defaults s ! i"
  shows "generic_loader_reset h s w = Inr w"
proof -
  from assms(3) have "\<forall>i \<in> set [0..<31]. \<not> has_register_defaults s ! i" by simp
  from reset_register_defaults_none [OF this] assms(1,2) show ?thesis
    by (simp add: generic_loader_reset_def reset_pc_override_def reset_data_write_def)
qed

subsection \<open>Byte order\<close>

lemma upt_8: "[0..<8] = [0, 1, 2, 3, 4, 5, 6, 7]"
  by (simp add: upt_rec)

lemma byte_masks:
  "(0xff :: 64 word) = mask 8"
  "(0xff00 :: 64 word) = push_bit 8 (mask 8)"
  "(0xff0000 :: 64 word) = push_bit 16 (mask 8)"
  "(0xff000000 :: 64 word) = push_bit 24 (mask 8)"
  by (simp_all add: mask_eq_exp_minus_1)

lemma le_bytes_bswap64: "le_bytes (bswap64 v) = rev (le_bytes v)"
  unfolding le_bytes_def upt_8 bswap64_def byte_masks
  apply simp
  apply (intro conjI; rule bit_word_eqI; auto simp add: bit_simps)
  done

lemma host_bytes_cpu_to_be64: "host_bytes hbe (cpu_to_be64 hbe x) = be_bytes x"
  by (simp add: host_bytes_def cpu_to_be64_def be_bytes_def le_bytes_bswap64)

lemma host_bytes_cpu_to_le64: "host_bytes hbe (cpu_to_le64 hbe x) = le_bytes x"
  by (simp add: host_bytes_def cpu_to_le64_def be_bytes_def le_bytes_bswap64)

lemma length_le_bytes [simp]: "length (le_bytes x) = 8"
  by (simp add: le_bytes_def)

lemma length_host_bytes [simp]: "length (host_bytes hbe x) = 8"
  by (simp add: host_bytes_def be_bytes_def)

lemma convert_data_bytes:
  "host_bytes (host_big_endian h) (data (convert_data h s))
     = (if data_be s then be_bytes (data s) else le_bytes (data s))"
  by (simp add: convert_data_def host_bytes_cpu_to_be64 host_bytes_cpu_to_le64)

subsection \<open>The reset callback, step by step\<close>

lemma default_regs_step:
  "has_register_defaults s ! i \<Longrightarrow>
     default_regs h s is (g(i := host_bytes (host_big_endian h) (register_defaults s ! i)))
       = default_regs h s (i # is) g"
  by (auto simp add: default_regs_def fun_eq_iff)

lemma default_regs_skip:
  "\<not> has_register_defaults s ! i \<Longrightarrow> default_regs h s (i # is) g = default_regs h s is g"
  by (auto simp add: default_regs_def fun_eq_iff)

lemma default_regs_Nil: "default_regs h s [] g = g"
  by (simp add: default_regs_def)

lemma default_regs_twice: "default_regs h s is (default_regs h s is g) = default_regs h s is g"
  by (auto simp add: default_regs_def fun_eq_iff)

lemma update_twice: "(xs[c := a])[c := g (xs[c := a] ! c)] = xs[c := g a]"
  by (cases "c < length xs") (simp_all add: list_update_beyond)

lemma update_same: "xs[c := xs ! c] = xs"
  by simp

lemma reset_pc_override_effect:
  assumes "reset_pc_override s w = Inr w1" and "cpu s = Some c"
  shows "cpus w1 = (cpus w)[c := pc_effect s (cpus w ! c)]" and "mem w1 = mem w"
proof -
  show "mem w1 = mem w"
    using assms
    by (auto simp add: reset_pc_override_def cpu_set_pc_def cpu_reset_def split: if_splits)
  show "cpus w1 = (cpus w)[c := pc_effect s (cpus w ! c)]"
  proof (cases "set_pc s")
    case False
    with assms show ?thesis by (simp add: reset_pc_override_def pc_effect_def)
  next
    case True
    let ?r = "(cpus w ! c)\<lparr>pc := reset_pc (cpus w ! c), gdb_regs := reset_regs (cpus w ! c)\<rparr>"
    from True assms have "w1 = cpu_set_pc c (addr s) (cpu_reset c w)"
      by (simp add: reset_pc_override_def)
    then have "cpus w1 = ((cpus w)[c := ?r])[c := ((cpus w)[c := ?r] ! c)\<lparr>pc := addr s\<rparr>]"
      by (simp add: cpu_set_pc_def cpu_reset_def)
    also have "\<dots> = (cpus w)[c := ?r\<lparr>pc := addr s\<rparr>]"
      by (rule update_twice)
    finally show ?thesis using True by (simp add: pc_effect_def)
  qed
qed

lemma regs_effect_step:
  assumes "has_register_defaults s ! i"
  shows "regs_effect h s is
           (if has_gdb_write_register x
            then x\<lparr>gdb_regs := (gdb_regs x)(i := host_bytes (host_big_endian h) (register_defaults s ! i))\<rparr>
            else x)
         = regs_effect h s (i # is) x"
  using assms by (simp add: regs_effect_def default_regs_step)

lemma regs_effect_skip:
  assumes "\<not> has_register_defaults s ! i"
  shows "regs_effect h s (i # is) x = regs_effect h s is x"
  using assms by (simp add: regs_effect_def default_regs_skip)

lemma regs_effect_Nil: "regs_effect h s [] x = x"
  by (simp add: regs_effect_def default_regs_Nil)

lemma reset_register_defaults_effect:
  assumes "reset_register_defaults h s is w = Inr w'" and "cpu s = Some c"
  shows "cpus w' = (cpus w)[c := regs_effect h s is (cpus w ! c)] \<and> mem w' = mem w"
  using assms
proof (induction "is" arbitrary: w)
  case Nil
  then show ?case by (simp add: regs_effect_Nil)
next
  case (Cons i "is")
  show ?case
  proof (cases "has_register_defaults s ! i")
    case False
    with Cons show ?thesis by (simp add: regs_effect_skip)
  next
    case True
    let ?buf = "host_bytes (host_big_endian h) (register_defaults s ! i)"
    let ?x = "cpus w ! c"
    let ?y = "if has_gdb_write_register ?x then ?x\<lparr>gdb_regs := (gdb_regs ?x)(i := ?buf)\<rparr> else ?x"
    let ?w = "if has_gdb_write_register ?x then gdb_write_register c ?buf i w else w"
    from Cons.prems True have run: "reset_register_defaults h s is ?w = Inr w'" by simp
    have mid: "cpus ?w = (cpus w)[c := ?y]" "mem ?w = mem w"
      by (simp_all add: gdb_write_register_def)
    from Cons.IH [OF run Cons.prems(2)]
    have ih: "cpus w' = (cpus ?w)[c := regs_effect h s is (cpus ?w ! c)]" "mem w' = mem ?w"
      by simp_all
    have "(cpus ?w)[c := regs_effect h s is (cpus ?w ! c)] = (cpus w)[c := regs_effect h s is ?y]"
      unfolding mid(1) by (rule update_twice)
    with ih mid(2)
    have "cpus w' = (cpus w)[c := regs_effect h s is ?y]" and "mem w' = mem w"
      by simp_all
    with regs_effect_step [OF True, of h "is" ?x] show ?thesis by simp
  qed
qed

lemma reset_register_defaults_null:
  assumes "reset_register_defaults h s is w = Inr w'" and "cpu s = None"
  shows "w' = w"
  using assms by (induction "is" arbitrary: w) (auto split: if_splits)

lemma reset_data_write_effect:
  assumes "reset_data_write h s w = Inr w'" and "cpu s = Some c"
  shows "cpus w' = cpus w"
    and "mem w' = (if data_len s \<noteq> 0
                   then (mem w)(cpu_as (cpus w ! c) :=
                          write_bytes (mem w (cpu_as (cpus w ! c))) (addr s)
                            (take (unat (data_len s)) (host_bytes (host_big_endian h) (data s))))
                   else mem w)"
  using assms
  by (auto simp add: reset_data_write_def address_space_rw_def split: if_splits)

lemma cpu_as_effect [simp]: "cpu_as (cpu_effect h s x) = cpu_as x"
  by (simp add: cpu_effect_def regs_effect_def pc_effect_def)

lemma cpu_as_update: "cpu_as (xs[c := cpu_effect h s (xs ! c)] ! c) = cpu_as (xs ! c)"
  by (cases "c < length xs") (simp_all add: list_update_beyond)

lemma generic_loader_reset_effect:
  assumes "generic_loader_reset h s w = Inr w'" and "cpu s = Some c"
  shows "cpus w' = (cpus w)[c := cpu_effect h s (cpus w ! c)]"
    and "mem w' = (if data_len s \<noteq> 0
                   then (mem w)(cpu_as (cpus w ! c) :=
                          write_bytes (mem w (cpu_as (cpus w ! c))) (addr s)
                            (take (unat (data_len s)) (host_bytes (host_big_endian h) (data s))))
                   else mem w)"
proof -
  from assms(1) obtain w1 w2 where
    a: "reset_pc_override s w = Inr w1"
    and b: "reset_register_defaults h s [0..<31] w1 = Inr w2"
    and d: "reset_data_write h s w2 = Inr w'"
    by (auto simp add: generic_loader_reset_def split: sum.splits)
  note ea = reset_pc_override_effect [OF a assms(2)]
  note eb = reset_register_defaults_effect [OF b assms(2)]
  note ed = reset_data_write_effect [OF d assms(2)]
  have "cpus w2 = (cpus w1)[c := regs_effect h s [0..<31] (cpus w1 ! c)]"
    using eb by simp
  also have "\<dots> = (cpus w)[c := regs_effect h s [0..<31] (pc_effect s (cpus w ! c))]"
    unfolding ea(1) by (rule update_twice)
  finally have c2: "cpus w2 = (cpus w)[c := cpu_effect h s (cpus w ! c)]"
    by (simp add: cpu_effect_def)
  then show "cpus w' = (cpus w)[c := cpu_effect h s (cpus w ! c)]"
    using ed(1) by simp
  have "cpu_as (cpus w2 ! c) = cpu_as (cpus w ! c)"
    using c2 by (simp add: cpu_as_update)
  moreover have "mem w2 = mem w" using ea(2) eb by simp
  ultimately show "mem w' = (if data_len s \<noteq> 0
                   then (mem w)(cpu_as (cpus w ! c) :=
                          write_bytes (mem w (cpu_as (cpus w ! c))) (addr s)
                            (take (unat (data_len s)) (host_bytes (host_big_endian h) (data s))))
                   else mem w)"
    using ed(2) by simp
qed

lemma generic_loader_reset_null:
  assumes "generic_loader_reset h s w = Inr w'" and "cpu s = None"
  shows "w' = w"
proof -
  from assms(1) obtain w1 w2 where
    a: "reset_pc_override s w = Inr w1"
    and b: "reset_register_defaults h s [0..<31] w1 = Inr w2"
    and d: "reset_data_write h s w2 = Inr w'"
    by (auto simp add: generic_loader_reset_def split: sum.splits)
  from a assms(2) have "w1 = w" by (auto simp add: reset_pc_override_def split: if_splits)
  moreover from reset_register_defaults_null [OF b assms(2)] have "w2 = w1" .
  moreover from d assms(2) have "w' = w2"
    by (auto simp add: reset_data_write_def split: if_splits)
  ultimately show ?thesis by simp
qed

subsection \<open>Resetting twice\<close>

lemma cpu_effect_twice: "cpu_effect h s (cpu_effect h s x) = cpu_effect h s x"
  by (simp add: cpu_effect_def regs_effect_def pc_effect_def default_regs_twice)

lemma write_bytes_twice: "write_bytes (write_bytes m a bs) a bs = write_bytes m a bs"
  by (simp add: write_bytes_def fun_eq_iff)

lemma reset_register_defaults_any_world:
  "reset_register_defaults h s is w = Inr w' \<Longrightarrow> \<exists>v'. reset_register_defaults h s is v = Inr v'"
proof (induction "is" arbitrary: w v)
  case Nil
  then show ?case by simp
next
  case (Cons i "is")
  show ?case
  proof (cases "has_register_defaults s ! i")
    case False
    with Cons show ?thesis by simp
  next
    case True
    with Cons.prems obtain c where c: "cpu s = Some c"
      by (auto split: option.splits)
    from Cons.prems True c Cons.IH show ?thesis by simp
  qed
qed

lemma generic_loader_reset_any_world:
  assumes "generic_loader_reset h s w = Inr w'"
  shows "\<exists>v'. generic_loader_reset h s v = Inr v'"
proof -
  from assms obtain w1 w2 where
    a: "reset_pc_override s w = Inr w1"
    and b: "reset_register_defaults h s [0..<31] w1 = Inr w2"
    and d: "reset_data_write h s w2 = Inr w'"
    by (auto simp add: generic_loader_reset_def split: sum.splits)
  from a obtain v1 where a': "reset_pc_override s v = Inr v1"
    by (auto simp add: reset_pc_override_def split: if_splits option.splits)
  from reset_register_defaults_any_world [OF b]
  obtain v2 where b': "reset_register_defaults h s [0..<31] v1 = Inr v2" by blast
  from d obtain v3 where d': "reset_data_write h s v2 = Inr v3"
    by (auto simp add: reset_data_write_def split: if_splits option.splits)
  from a' b' d' show ?thesis by (simp add: generic_loader_reset_def)
qed

text \<open>
  Claim C9. When the reset callback returns, running it again on the machine it left
  returns as well, and leaves every CPU (program counter and registers) and every
  address space as the first run left them.
\<close>

theorem reset_twice_is_reset_once:
  assumes "generic_loader_reset h s w = Inr w1"
  shows "\<exists>w2. generic_loader_reset h s w1 = Inr w2 \<and> cpus w2 = cpus w1 \<and> mem w2 = mem w1"
proof -
  from generic_loader_reset_any_world [OF assms]
  obtain w2 where r2: "generic_loader_reset h s w1 = Inr w2" by blast
  have "cpus w2 = cpus w1 \<and> mem w2 = mem w1"
  proof (cases "cpu s")
    case None
    from generic_loader_reset_null [OF r2 None] show ?thesis by simp
  next
    case (Some c)
    note e1 = generic_loader_reset_effect [OF assms Some]
    note e2 = generic_loader_reset_effect [OF r2 Some]
    have "cpus w2 = (cpus w1)[c := cpu_effect h s (cpus w1 ! c)]" by (rule e2(1))
    also have "\<dots> = (cpus w)[c := cpu_effect h s (cpu_effect h s (cpus w ! c))]"
      unfolding e1(1) by (rule update_twice)
    finally have c: "cpus w2 = cpus w1" using e1(1) by (simp add: cpu_effect_twice)
    have as: "cpu_as (cpus w1 ! c) = cpu_as (cpus w ! c)"
      unfolding e1(1) by (rule cpu_as_update)
    have "mem w2 = mem w1"
      using e2(2) e1(2) as by (simp add: write_bytes_twice)
    with c show ?thesis by simp
  qed
  with r2 show ?thesis by blast
qed

subsection \<open>The bytes of the literal write\<close>

lemma store_register_default_state:
  assumes "store_register_default s = Inr (e, s')"
  shows "\<exists>rd hrd. s' = s\<lparr>register_defaults := rd, has_register_defaults := hrd\<rparr>"
proof (cases "e = None \<and> reg s \<noteq> None")
  case True
  with assms show ?thesis
    by (auto simp add: store_register_default_def split: option.splits sum.splits if_splits)
next
  case False
  with assms have "s' = s\<lparr>register_defaults := register_defaults s,
                           has_register_defaults := has_register_defaults s\<rparr>"
    by (auto simp add: store_register_default_def split: option.splits sum.splits if_splits)
  then show ?thesis by blast
qed

lemma check_options_data:
  assumes "check_options s = Inr spc" and "data_len s \<noteq> 0"
  shows "\<not> spc" "file_name s = None" "\<not> force_raw s" "unat (data_len s) \<le> 8"
  using assms
  by (auto simp add: check_options_def data_options_def split: if_splits)

lemma realize_data_mode:
  assumes ok: "generic_loader_realize h s0 w0 = Inr (None, s1, w1)"
      and len: "data_len s0 \<noteq> 0"
  shows "addr s1 = addr s0" "data_len s1 = data_len s0" "\<not> set_pc s1"
    "host_bytes (host_big_endian h) (data s1)
       = (if data_be s0 then be_bytes (data s0) else le_bytes (data s0))"
    "attrs_secure s1 = attrs_secure s0" "attrs_debug s1 = attrs_debug s0"
    "attrs_requester_id s1 = attrs_requester_id s0"
    "unat (data_len s0) \<le> 8"
proof -
  from ok obtain spc s3 s4 w2 where
    chk: "check_options (s0\<lparr>set_pc := False\<rparr>) = Inr spc"
    and res: "resolve_cpu (s0\<lparr>set_pc := spc\<rparr>) (qemu_register_reset_loader w0) = (None, s3)"
    and ld: "load_file h s3 (qemu_register_reset_loader w0) = (None, s4, w2)"
    and st: "store_register_default (convert_data h s4) = Inr (None, s1)"
    by (rule realize_success)
  from len have len': "data_len (s0\<lparr>set_pc := False\<rparr>) \<noteq> 0" by simp
  note c = check_options_data [OF chk len']
  from resolve_cpu_ok(1) [OF res] obtain x where s3: "s3 = s0\<lparr>set_pc := spc, cpu := x\<rparr>"
    by simp
  from c(2) s3 ld have s4: "s4 = s3" by (simp add: load_file_def)
  from store_register_default_state [OF st] obtain rd hrd where
    s1: "s1 = (convert_data h s4)\<lparr>register_defaults := rd, has_register_defaults := hrd\<rparr>"
    by blast
  obtain d where s5: "convert_data h s4 = s4\<lparr>data := d\<rparr>"
    using convert_data_state by blast
  show "addr s1 = addr s0" "data_len s1 = data_len s0" "\<not> set_pc s1"
    "attrs_secure s1 = attrs_secure s0" "attrs_debug s1 = attrs_debug s0"
    "attrs_requester_id s1 = attrs_requester_id s0"
    using s1 s5 s4 s3 c(1) by simp_all
  have "data s1 = data (convert_data h s4)" using s1 by simp
  moreover have "data_be s4 = data_be s0" "data s4 = data s0" using s4 s3 by simp_all
  ultimately show "host_bytes (host_big_endian h) (data s1)
       = (if data_be s0 then be_bytes (data s0) else le_bytes (data s0))"
    using convert_data_bytes [of h s4] by simp
  show "unat (data_len s0) \<le> 8" using c(4) by simp
qed

lemma reset_stages_cpus:
  assumes a: "reset_pc_override s w = Inr w1"
      and b: "reset_register_defaults h s [0..<31] w1 = Inr w2"
      and c: "cpu s = Some c"
  shows "cpus w2 = (cpus w)[c := cpu_effect h s (cpus w ! c)]"
proof -
  have "cpus w2 = (cpus w1)[c := regs_effect h s [0..<31] (cpus w1 ! c)]"
    using reset_register_defaults_effect [OF b c] by simp
  also have "\<dots> = (cpus w)[c := regs_effect h s [0..<31] (pc_effect s (cpus w ! c))]"
    unfolding reset_pc_override_effect(1) [OF a c] by (rule update_twice)
  finally show ?thesis by (simp add: cpu_effect_def)
qed

lemma reset_pc_override_trace:
  assumes "reset_pc_override s w = Inr w1"
  shows "\<exists>evs. trace w1 = trace w @ evs \<and> (\<forall>e \<in> set evs. \<not> is_mem_write e)"
  using assms
  by (auto simp add: reset_pc_override_def cpu_set_pc_def cpu_reset_def
        split: if_splits option.splits)

lemma reset_mem_writes:
  assumes run: "generic_loader_reset h s w = Inr w'" and c: "cpu s = Some c"
  shows "filter is_mem_write (new_events w w')
           = (if data_len s \<noteq> 0
              then [AddressSpaceWrite (cpu_as (cpus w ! c)) (addr s)
                      \<lparr>unspecified = False, secure = attrs_secure s, user = False,
                       debug = attrs_debug s, requester_id = attrs_requester_id s\<rparr>
                      (take (unat (data_len s)) (host_bytes (host_big_endian h) (data s)))]
              else [])"
proof -
  from run obtain w1 w2 where
    a: "reset_pc_override s w = Inr w1"
    and b: "reset_register_defaults h s [0..<31] w1 = Inr w2"
    and d: "reset_data_write h s w2 = Inr w'"
    by (auto simp add: generic_loader_reset_def split: sum.splits)
  from reset_pc_override_trace [OF a]
  obtain e1 where e1: "trace w1 = trace w @ e1" "\<forall>e \<in> set e1. \<not> is_mem_write e" by blast
  from reset_register_defaults_trace [OF b]
  obtain e2 where e2: "trace w2 = trace w1 @ e2" "\<forall>e \<in> set e2. \<not> is_mem_write e" by blast
  have "cpus w2 = (cpus w)[c := cpu_effect h s (cpus w ! c)]"
    by (rule reset_stages_cpus [OF a b c])
  then have as: "cpu_as (cpus w2 ! c) = cpu_as (cpus w ! c)"
    by (simp add: cpu_as_update)
  define e3 where "e3 = (if data_len s \<noteq> 0
              then [AddressSpaceWrite (cpu_as (cpus w ! c)) (addr s)
                      \<lparr>unspecified = False, secure = attrs_secure s, user = False,
                       debug = attrs_debug s, requester_id = attrs_requester_id s\<rparr>
                      (take (unat (data_len s)) (host_bytes (host_big_endian h) (data s)))]
              else [])"
  from d c as have e3: "trace w' = trace w2 @ e3"
    by (auto simp add: e3_def reset_data_write_def address_space_rw_def split: if_splits)
  from e1 e2 e3 have "new_events w w' = e1 @ e2 @ e3"
    by (simp add: new_events_def)
  moreover have "filter is_mem_write e3 = e3" by (simp add: e3_def)
  ultimately show ?thesis using e1(2) e2(2) by (simp add: e3_def)
qed

lemma reset_data_write_ok:
  assumes "generic_loader_reset h s w = Inr w'" and "data_len s \<noteq> 0"
  shows "cpu s \<noteq> None" "unat (data_len s) < 8"
  using assms
  by (auto simp add: generic_loader_reset_def reset_data_write_def
        split: sum.splits if_splits option.splits)

text \<open>
  Claim C4. After a successful setup with a literal, a reset that returns performs
  exactly one address-space write: at the configured address, in the address space of
  the target CPU, of the first \<open>data_len\<close> bytes of the literal in the requested
  byte order, whatever the byte order of the host. Memory changes at these
  \<open>data_len\<close> addresses and nowhere else. For the literal \<open>0x1122334455667788\<close>
  with length 4 the bytes are 11 22 33 44 when big-endian is requested and
  88 77 66 55 otherwise.
\<close>

theorem literal_write_bytes:
  assumes ok: "generic_loader_realize h s0 w0 = Inr (None, s1, w1)"
      and len: "data_len s0 \<noteq> 0"
      and run: "generic_loader_reset h s1 w = Inr w'"
  defines "bs \<equiv> take (unat (data_len s0))
                    (if data_be s0 then be_bytes (data s0) else le_bytes (data s0))"
  shows "\<exists>c. cpu s1 = Some c
          \<and> length bs = unat (data_len s0)
          \<and> filter is_mem_write (new_events w w')
              = [AddressSpaceWrite (cpu_as (cpus w ! c)) (addr s0)
                   \<lparr>unspecified = False, secure = attrs_secure s0, user = False,
                    debug = attrs_debug s0, requester_id = attrs_requester_id s0\<rparr> bs]
          \<and> (\<forall>a x. mem w' a x
                = (if a = cpu_as (cpus w ! c) \<and> unat (x - addr s0) < unat (data_len s0)
                   then bs ! unat (x - addr s0) else mem w a x))
          \<and> (data s0 = 0x1122334455667788 \<and> data_len s0 = 4 \<longrightarrow>
                bs = (if data_be s0 then [0x11, 0x22, 0x33, 0x44] else [0x88, 0x77, 0x66, 0x55]))"
proof -
  note m = realize_data_mode [OF ok len]
  from len m(2) have len1: "data_len s1 \<noteq> 0" by simp
  from reset_data_write_ok [OF run len1] obtain c where c: "cpu s1 = Some c" by auto
  have lb: "length bs = unat (data_len s0)"
    using m(8) by (simp add: bs_def be_bytes_def)
  have bs1: "take (unat (data_len s1)) (host_bytes (host_big_endian h) (data s1)) = bs"
    using m(2,4) by (simp add: bs_def)
  have tr: "filter is_mem_write (new_events w w')
              = [AddressSpaceWrite (cpu_as (cpus w ! c)) (addr s0)
                   \<lparr>unspecified = False, secure = attrs_secure s0, user = False,
                    debug = attrs_debug s0, requester_id = attrs_requester_id s0\<rparr> bs]"
    using reset_mem_writes [OF run c] len1 bs1 m(1,5,6,7) by simp
  have "mem w' = (mem w)(cpu_as (cpus w ! c) :=
                    write_bytes (mem w (cpu_as (cpus w ! c))) (addr s0) bs)"
    using generic_loader_reset_effect(2) [OF run c] len1 bs1 m(1) by simp
  then have mm: "\<forall>a x. mem w' a x
                = (if a = cpu_as (cpus w ! c) \<and> unat (x - addr s0) < unat (data_len s0)
                   then bs ! unat (x - addr s0) else mem w a x)"
    using lb by (simp add: write_bytes_def)
  have ex: "data s0 = 0x1122334455667788 \<and> data_len s0 = 4 \<longrightarrow>
                bs = (if data_be s0 then [0x11, 0x22, 0x33, 0x44] else [0x88, 0x77, 0x66, 0x55])"
    by (simp add: bs_def be_bytes_def le_bytes_def upt_8)
  from c lb tr mm ex show ?thesis by blast
qed

subsection \<open>Concrete runs of the reset callback\<close>

lemma reset_result: "\<not> isl r \<Longrightarrow> r = Inr (projr r)"
  by (cases r) simp_all

lemma minus_one_64: "unat (- 1 :: 64 word) = 18446744073709551615"
  by (simp add: unsigned_minus_1_eq_mask mask_eq_exp_minus_1)

theorem literal_write_bytes_witness:
  "\<not> isl (generic_loader_realize (sample_host False False) config_literal4_be (sample_world 1))
   \<and> setup_error (generic_loader_realize (sample_host False False) config_literal4_be (sample_world 1))
       = None
   \<and> data_len config_literal4_be = 4
   \<and> \<not> isl (generic_loader_reset (sample_host False False)
         (setup_state (generic_loader_realize (sample_host False False) config_literal4_be
            (sample_world 1)))
         (sample_world 1))
   \<and> map (mem (projr (generic_loader_reset (sample_host False False)
         (setup_state (generic_loader_realize (sample_host False False) config_literal4_be
            (sample_world 1)))
         (sample_world 1))) 0) [0x0FFF, 0x1000, 0x1001, 0x1002, 0x1003, 0x1004]
       = [0, 0x11, 0x22, 0x33, 0x44, 0]"
proof -
  let ?h = "sample_host False False"
  let ?r = "generic_loader_realize ?h config_literal4_be (sample_world 1)"
  let ?s = "setup_state ?r"
  let ?t = "generic_loader_reset ?h ?s (sample_world 1)"
  have a: "\<not> isl ?r" and b: "setup_error ?r = None" and c: "cpu ?s = Some 0"
    by (simp_all add: realize_defs sample_defs setup_projections config_defs cpu_to_be64_def
          bswap64_def Let_def)
  have d: "data_len config_literal4_be = 4" "data_len config_literal4_be \<noteq> 0"
    "data config_literal4_be = 0x1122334455667788" "data_be config_literal4_be"
    "addr config_literal4_be = 0x1000"
    by (simp_all add: config_defs default_state_def)
  have e: "\<not> isl ?t"
    using c
    by (simp add: realize_defs reset_defs sample_defs setup_projections config_defs
          cpu_to_be64_def bswap64_def Let_def reset_register_defaults_none)
  have w: "cpu_as (cpus (sample_world 1) ! 0) = 0" "mem (sample_world 1) = (\<lambda>a x. 0)"
    by (simp_all add: sample_defs)
  from setup_result [OF a] b have r: "?r = Inr (None, ?s, setup_world ?r)" by simp
  from literal_write_bytes [OF r d(2) reset_result [OF e]] c d w
  have "\<forall>a x. mem (projr ?t) a x
          = (if a = 0 \<and> unat (x - 0x1000) < 4
             then [0x11, 0x22, 0x33, 0x44] ! unat (x - 0x1000) else 0)"
    by simp
  then have "map (mem (projr ?t) 0) [0x0FFF, 0x1000, 0x1001, 0x1002, 0x1003, 0x1004]
       = [0, 0x11, 0x22, 0x33, 0x44, 0]"
    by (simp add: minus_one_64)
  with a b d(1) e show ?thesis by simp
qed

lemma upt_31:
  "[0..<31] = [0, 1, 2, 3, 4, 5, 6, 7, 8, 9, 10, 11, 12, 13, 14, 15, 16, 17, 18, 19, 20,
               21, 22, 23, 24, 25, 26, 27, 28, 29, 30]"
  by (simp add: upt_rec)

theorem reset_twice_is_reset_once_witness:
  "\<not> isl (generic_loader_reset (sample_host False False)
         (setup_state (generic_loader_realize (sample_host False False) config_reg_r2_len4
            (sample_world 1)))
         (sample_world 1))
   \<and> gdb_regs (cpus (projr (generic_loader_reset (sample_host False False)
         (setup_state (generic_loader_realize (sample_host False False) config_reg_r2_len4
            (sample_world 1)))
         (sample_world 1))) ! 0) 2
       = [42, 0, 0, 0, 0, 0, 0, 0]
   \<and> cpus (projr (generic_loader_reset (sample_host False False)
         (setup_state (generic_loader_realize (sample_host False False) config_reg_r2_len4
            (sample_world 1)))
         (projr (generic_loader_reset (sample_host False False)
            (setup_state (generic_loader_realize (sample_host False False) config_reg_r2_len4
               (sample_world 1)))
            (sample_world 1)))))
       = cpus (projr (generic_loader_reset (sample_host False False)
         (setup_state (generic_loader_realize (sample_host False False) config_reg_r2_len4
            (sample_world 1)))
         (sample_world 1)))
   \<and> mem (projr (generic_loader_reset (sample_host False False)
         (setup_state (generic_loader_realize (sample_host False False) config_reg_r2_len4
            (sample_world 1)))
         (projr (generic_loader_reset (sample_host False False)
            (setup_state (generic_loader_realize (sample_host False False) config_reg_r2_len4
               (sample_world 1)))
            (sample_world 1)))))
       = mem (projr (generic_loader_reset (sample_host False False)
         (setup_state (generic_loader_realize (sample_host False False) config_reg_r2_len4
            (sample_world 1)))
         (sample_world 1)))"
proof -
  let ?h = "sample_host False False"
  let ?s = "setup_state (generic_loader_realize ?h config_reg_r2_len4 (sample_world 1))"
  let ?t = "generic_loader_reset ?h ?s (sample_world 1)"
  have s: "?s = default_state\<lparr>cpu := Some 0, addr := 0x1000, data := 42, data_len := 4,
                   cpu_num := 0, reg := Some ''r2'',
                   register_defaults := (replicate 31 0)[2 := 42],
                   has_register_defaults := (replicate 31 False)[2 := True]\<rparr>"
    by (simp add: realize_defs sample_defs setup_projections config_defs cpu_to_le64_def Let_def
          sscanf_r_d_def scan_sign_def isspace_def isdigit_def digits_value_def)
  have a: "\<not> isl ?t"
    and g: "gdb_regs (cpus (projr ?t) ! 0) 2 = [42, 0, 0, 0, 0, 0, 0, 0]"
    unfolding s
    by (simp_all add: reset_defs sample_defs upt_31 host_bytes_def le_bytes_def upt_8)
  from reset_twice_is_reset_once [OF reset_result [OF a]]
  obtain w2 where "generic_loader_reset ?h ?s (projr ?t) = Inr w2"
    "cpus w2 = cpus (projr ?t)" "mem w2 = mem (projr ?t)"
    by blast
  then have "cpus (projr (generic_loader_reset ?h ?s (projr ?t))) = cpus (projr ?t)"
    "mem (projr (generic_loader_reset ?h ?s (projr ?t))) = mem (projr ?t)"
    by simp_all
  with a g show ?thesis by simp
qed

subsection \<open>The register default\<close>

lemma reset_register_defaults_total:
  "cpu s = Some c \<Longrightarrow> \<exists>w'. reset_register_defaults h s is w = Inr w'"
  by (induction "is" arbitrary: w) simp_all

lemma generic_loader_reset_total:
  assumes "cpu s = Some c" and "unat (data_len s) < 8"
  shows "\<exists>w'. generic_loader_reset h s w = Inr w'"
proof -
  from assms(1) have "\<exists>w1. reset_pc_override s w = Inr w1"
    by (simp add: reset_pc_override_def)
  then obtain w1 where a: "reset_pc_override s w = Inr w1" by blast
  from reset_register_defaults_total [OF assms(1)]
  obtain w2 where b: "reset_register_defaults h s [0..<31] w1 = Inr w2" by blast
  from assms have "\<exists>w3. reset_data_write h s w2 = Inr w3"
    by (simp add: reset_data_write_def)
  then obtain w3 where d: "reset_data_write h s w2 = Inr w3" by blast
  from a b d show ?thesis by (simp add: generic_loader_reset_def)
qed

lemma realize_upto_register:
  assumes "check_options (s0\<lparr>set_pc := False\<rparr>) = Inr spc"
      and "resolve_cpu (s0\<lparr>set_pc := spc\<rparr>) (qemu_register_reset_loader w0) = (None, s3)"
      and "load_file h s3 (qemu_register_reset_loader w0) = (None, s4, w2)"
      and "(if machine_ready h then generic_loader_reset h (convert_data h s4) w2 else Inr w2) = Inr w3"
  shows "generic_loader_realize h s0 w0 =
           (case store_register_default (convert_data h s4) of
              Inl f \<Rightarrow> Inl f
            | Inr (e, s6) \<Rightarrow> Inr (e, s6, w3))"
  using assms by (simp add: generic_loader_realize_def Let_def)

lemma sscanf_r2: "sscanf_r_d ''r2'' = Inr (Some 2)"
  by (simp add: sscanf_r_d_def scan_sign_def isspace_def isdigit_def digits_value_def)

lemma gdb_regs_cpu_effect:
  assumes "\<not> set_pc s" and "has_gdb_write_register x" and "i < 31" and "has_register_defaults s ! i"
  shows "gdb_regs (cpu_effect h s x) i = host_bytes (host_big_endian h) (register_defaults s ! i)"
  using assms by (simp add: cpu_effect_def pc_effect_def regs_effect_def default_regs_def)


subsection \<open>The register name\<close>

lemma check_options_reg: "check_options (s\<lparr>reg := x\<rparr>) = check_options s"
  by (simp add: check_options_def data_options_def)

lemma resolve_cpu_reg:
  "resolve_cpu s w = (e, s') \<Longrightarrow> resolve_cpu (s\<lparr>reg := x\<rparr>) w = (e, s'\<lparr>reg := x\<rparr>)"
  by (auto simp add: resolve_cpu_def split: if_splits option.splits)

lemma load_file_reg:
  "load_file h s w = (e, s', w') \<Longrightarrow> load_file h (s\<lparr>reg := x\<rparr>) w = (e, s'\<lparr>reg := x\<rparr>, w')"
  unfolding load_file_def Let_def
  by (auto split: option.splits prod.splits if_splits)

lemma convert_data_reg: "convert_data h (s\<lparr>reg := x\<rparr>) = (convert_data h s)\<lparr>reg := x\<rparr>"
  by (simp add: convert_data_def)

lemma reset_register_defaults_reg:
  "reset_register_defaults h (s\<lparr>reg := x\<rparr>) is w = reset_register_defaults h s is w"
  by (induction "is" arbitrary: w) (simp_all split: option.splits)

lemma reset_pc_override_reg: "reset_pc_override (s\<lparr>reg := x\<rparr>) w = reset_pc_override s w"
  by (simp add: reset_pc_override_def split: option.splits)

lemma reset_data_write_reg: "reset_data_write h (s\<lparr>reg := x\<rparr>) w = reset_data_write h s w"
  by (simp add: reset_data_write_def split: option.splits)

lemma generic_loader_reset_reg:
  "generic_loader_reset h (s\<lparr>reg := x\<rparr>) w = generic_loader_reset h s w"
  by (simp add: generic_loader_reset_def reset_pc_override_reg reset_data_write_reg
        reset_register_defaults_reg cong: sum.case_cong)

lemma takeWhile_trailing:
  "rest = [] \<or> \<not> P (hd rest) \<Longrightarrow> takeWhile P (v @ rest) = takeWhile P v"
  by (induction v) (auto simp add: takeWhile_eq_Nil_iff neq_Nil_conv)

lemma scan_sign_trailing:
  "u \<noteq> [] \<Longrightarrow> scan_sign (u @ rest) = (fst (scan_sign u), snd (scan_sign u) @ rest)"
  by (cases u) (simp_all add: scan_sign_def)

lemma dropWhile_trailing:
  assumes "dropWhile P t \<noteq> []"
  shows "dropWhile P (t @ rest) = dropWhile P t @ rest"
proof -
  from assms have "hd (dropWhile P t) \<in> set t"
    by (meson hd_in_set set_dropWhileD)
  moreover from assms have "\<not> P (hd (dropWhile P t))"
    by (rule hd_dropWhile)
  ultimately show ?thesis by (rule dropWhile_append1)
qed

lemma sscanf_r_d_trailing:
  assumes ok: "sscanf_r_d str = Inr (Some n)" and rest: "rest = [] \<or> \<not> isdigit (hd rest)"
  shows "sscanf_r_d (str @ rest) = Inr (Some n)"
proof -
  from ok obtain t where str: "str = CHR ''r'' # t"
    by (cases str) (auto simp add: sscanf_r_d_def split: if_splits)
  let ?u = "dropWhile isspace t"
  obtain neg v where sg: "scan_sign ?u = (neg, v)" by (cases "scan_sign ?u") auto
  from ok str sg have ds: "takeWhile isdigit v \<noteq> []"
    by (auto simp add: sscanf_r_d_def Let_def split: if_splits)
  have u: "?u \<noteq> []"
  proof
    assume "?u = []"
    with sg have "v = []" by (simp add: scan_sign_def)
    with ds show False by simp
  qed
  have "dropWhile isspace (t @ rest) = ?u @ rest"
    using u by (rule dropWhile_trailing)
  moreover have "scan_sign (?u @ rest) = (neg, v @ rest)"
    using scan_sign_trailing [OF u, of rest] sg by simp
  moreover have "takeWhile isdigit (v @ rest) = takeWhile isdigit v"
    using rest by (rule takeWhile_trailing)
  ultimately have "sscanf_r_d (str @ rest) = sscanf_r_d str"
    using str sg by (simp add: sscanf_r_d_def)
  with ok show ?thesis by simp
qed

lemma sscanf_r_d_no_r: "str = [] \<or> hd str \<noteq> CHR ''r'' \<Longrightarrow> sscanf_r_d str = Inr None"
  by (cases str) (auto simp add: sscanf_r_d_def)

text \<open>
  Claim C8, amended. Take a configuration that passes setup without a register name.
  With the register name \<open>r\<close> added, the outcome is decided by the scan of \<open>r\<close>
  alone: when nothing is converted, or the converted index is outside 0 to 30, setup
  fails with the unsupported-register error; when an index from 0 to 30 is converted,
  setup succeeds and the only change to the state is that this slot holds the
  converted literal and is marked as populated. A name that does not start with
  \<open>r\<close> converts nothing. The scan stops after the digits: a name that converts an
  index converts the same index when any text not starting with a digit is appended.
\<close>

theorem register_name_decides:
  assumes ok: "generic_loader_realize h (s0\<lparr>reg := None\<rparr>) w0 = Inr (None, s1, w1)"
  shows "generic_loader_realize h (s0\<lparr>reg := Some r\<rparr>) w0 =
           (case sscanf_r_d r of
              Inl f \<Rightarrow> Inl f
            | Inr None \<Rightarrow> Inr (Some (UnsupportedRegister r), s1\<lparr>reg := Some r\<rparr>, w1)
            | Inr (Some n) \<Rightarrow>
                if 0 \<le> n \<and> n < 31 then
                  Inr (None,
                       s1\<lparr>reg := Some r,
                          register_defaults := (register_defaults s1)[nat n := data s1],
                          has_register_defaults := (has_register_defaults s1)[nat n := True]\<rparr>,
                       w1)
                else Inr (Some (UnsupportedRegister r), s1\<lparr>reg := Some r\<rparr>, w1))
         \<and> ((r = [] \<or> hd r \<noteq> CHR ''r'') \<longrightarrow> sscanf_r_d r = Inr None)
         \<and> (\<forall>n rest. sscanf_r_d r = Inr (Some n) \<and> (rest = [] \<or> \<not> isdigit (hd rest))
               \<longrightarrow> sscanf_r_d (r @ rest) = Inr (Some n))"
proof -
  let ?n = "s0\<lparr>reg := None\<rparr>"
  let ?w1 = "qemu_register_reset_loader w0"
  from ok obtain spc s3 s4 w2 where
    chk: "check_options (?n\<lparr>set_pc := False\<rparr>) = Inr spc"
    and res: "resolve_cpu (?n\<lparr>set_pc := spc\<rparr>) ?w1 = (None, s3)"
    and ld: "load_file h s3 ?w1 = (None, s4, w2)"
    and rs: "(if machine_ready h then generic_loader_reset h (convert_data h s4) w2 else Inr w2)
               = Inr w1"
    and st: "store_register_default (convert_data h s4) = Inr (None, s1)"
    by (rule realize_success)
  have "reg s3 = None" using resolve_cpu_ok(1) [OF res] by simp
  moreover obtain a where "s4 = s3\<lparr>addr := a\<rparr>" using load_file_state [OF ld] by blast
  moreover obtain d where "convert_data h s4 = s4\<lparr>data := d\<rparr>"
    using convert_data_state by blast
  ultimately have r5: "reg (convert_data h s4) = None" by simp
  with st have s1: "s1 = convert_data h s4" by (simp add: store_register_default_def)
  let ?s = "s0\<lparr>reg := Some r\<rparr>"
  have eq1: "?s\<lparr>set_pc := False\<rparr> = (?n\<lparr>set_pc := False\<rparr>)\<lparr>reg := Some r\<rparr>"
    and eq2: "?s\<lparr>set_pc := spc\<rparr> = (?n\<lparr>set_pc := spc\<rparr>)\<lparr>reg := Some r\<rparr>"
    by simp_all
  have chk': "check_options (?s\<lparr>set_pc := False\<rparr>) = Inr spc"
    unfolding eq1 check_options_reg by (rule chk)
  have res': "resolve_cpu (?s\<lparr>set_pc := spc\<rparr>) ?w1 = (None, s3\<lparr>reg := Some r\<rparr>)"
    unfolding eq2 using res by (rule resolve_cpu_reg)
  have ld': "load_file h (s3\<lparr>reg := Some r\<rparr>) ?w1 = (None, s4\<lparr>reg := Some r\<rparr>, w2)"
    using ld by (rule load_file_reg)
  have cv: "convert_data h (s4\<lparr>reg := Some r\<rparr>) = s1\<lparr>reg := Some r\<rparr>"
    by (simp add: convert_data_reg s1)
  have rs': "(if machine_ready h
              then generic_loader_reset h (convert_data h (s4\<lparr>reg := Some r\<rparr>)) w2
              else Inr w2) = Inr w1"
    using rs unfolding cv generic_loader_reset_reg s1 .
  have "generic_loader_realize h ?s w0 =
          (case store_register_default (s1\<lparr>reg := Some r\<rparr>) of
             Inl f \<Rightarrow> Inl f
           | Inr (e, s6) \<Rightarrow> Inr (e, s6, w1))"
    using realize_upto_register [OF chk' res' ld' rs'] by (simp add: cv)
  then have main: "generic_loader_realize h ?s w0 =
           (case sscanf_r_d r of
              Inl f \<Rightarrow> Inl f
            | Inr None \<Rightarrow> Inr (Some (UnsupportedRegister r), s1\<lparr>reg := Some r\<rparr>, w1)
            | Inr (Some n) \<Rightarrow>
                if 0 \<le> n \<and> n < 31 then
                  Inr (None,
                       s1\<lparr>reg := Some r,
                          register_defaults := (register_defaults s1)[nat n := data s1],
                          has_register_defaults := (has_register_defaults s1)[nat n := True]\<rparr>,
                       w1)
                else Inr (Some (UnsupportedRegister r), s1\<lparr>reg := Some r\<rparr>, w1))"
    by (simp add: store_register_default_def split: sum.splits option.splits)
  show ?thesis
    using main sscanf_r_d_no_r [of r] sscanf_r_d_trailing [of r] by blast
qed

text \<open>
  Claim C8 as stated says that a name with extra characters after the digits is
  rejected. The name \<open>r2x\<close> is accepted, and selects register 2: the conversion of
  \<open>sscanf\<close> does not look at what follows the digits.
\<close>

theorem trailing_characters_accepted:
  "reg config_reg_r2x = Some ''r2x''
   \<and> \<not> isl (generic_loader_realize (sample_host False False) config_reg_r2x (sample_world 1))
   \<and> setup_error (generic_loader_realize (sample_host False False) config_reg_r2x (sample_world 1))
       = None
   \<and> has_register_defaults
         (setup_state (generic_loader_realize (sample_host False False) config_reg_r2x
            (sample_world 1))) ! 2
   \<and> register_defaults
         (setup_state (generic_loader_realize (sample_host False False) config_reg_r2x
            (sample_world 1))) ! 2 = 42"
  by (simp add: realize_defs sample_defs setup_projections config_defs cpu_to_le64_def Let_def
        scan_defs)

theorem register_name_decides_witness:
  "\<not> isl (generic_loader_realize (sample_host False False) (config_reg_r2x\<lparr>reg := None\<rparr>)
            (sample_world 1))
   \<and> setup_error (generic_loader_realize (sample_host False False) (config_reg_r2x\<lparr>reg := None\<rparr>)
         (sample_world 1)) = None
   \<and> sscanf_r_d ''r40'' = Inr (Some 40)
   \<and> setup_error (generic_loader_realize (sample_host False False)
         (config_reg_r2x\<lparr>reg := Some ''r40''\<rparr>) (sample_world 1))
       = Some (UnsupportedRegister ''r40'')
   \<and> sscanf_r_d ''r40 x'' = Inr (Some 40)"
proof -
  let ?h = "sample_host False False"
  let ?r = "generic_loader_realize ?h (config_reg_r2x\<lparr>reg := None\<rparr>) (sample_world 1)"
  have a: "\<not> isl ?r" and b: "setup_error ?r = None"
    by (simp_all add: realize_defs sample_defs setup_projections config_defs cpu_to_le64_def Let_def)
  have c: "sscanf_r_d ''r40'' = Inr (Some 40)"
    by (simp add: scan_defs)
  have d: "''r40'' @ '' x'' = ''r40 x''" "\<not> isdigit (hd '' x'')"
    by (simp_all add: isdigit_def)
  from setup_result [OF a] b have r: "?r = Inr (None, setup_state ?r, setup_world ?r)" by simp
  note t = register_name_decides [OF r, of "''r40''"]
  from t c have "generic_loader_realize ?h (config_reg_r2x\<lparr>reg := Some ''r40''\<rparr>) (sample_world 1)
      = Inr (Some (UnsupportedRegister ''r40''), (setup_state ?r)\<lparr>reg := Some ''r40''\<rparr>,
             setup_world ?r)"
    by simp
  then have e: "setup_error (generic_loader_realize ?h (config_reg_r2x\<lparr>reg := Some ''r40''\<rparr>)
        (sample_world 1)) = Some (UnsupportedRegister ''r40'')"
    by (simp add: setup_error_def)
  from t c d(2) have "sscanf_r_d (''r40'' @ '' x'') = Inr (Some 40)" by blast
  then have f: "sscanf_r_d ''r40 x'' = Inr (Some 40)" by simp
  from a b c e f show ?thesis by simp
qed


text \<open>
  With a length of 4 added and the machine ready, the reset that setup runs at once
  comes before the register default is stored: it performs the memory write and no
  register write, and the slot is populated only afterwards.
\<close>

lemma late_attach_reset_precedes_register_default:
  "setup_error (generic_loader_realize (sample_host False True) config_reg_r2_len4 (sample_world 1))
       = None
   \<and> trace (setup_world
         (generic_loader_realize (sample_host False True) config_reg_r2_len4 (sample_world 1)))
       = [RegisterReset,
          AddressSpaceWrite 0 0x1000
            \<lparr>unspecified = False, secure = False, user = False, debug = False, requester_id = 0\<rparr>
            [42, 0, 0, 0]]
   \<and> has_register_defaults (setup_state
         (generic_loader_realize (sample_host False True) config_reg_r2_len4 (sample_world 1))) ! 2"
  by (simp add: realize_defs reset_defs sample_defs setup_projections config_defs cpu_to_le64_def
        Let_def scan_defs reset_register_defaults_none host_bytes_def le_bytes_def upt_8)


subsection \<open>A failed setup after the late reset\<close>

text \<open>
  On a machine that is already ready, a literal write with an unparsable register
  name fails with the unsupported-register error only after the callback has been
  registered and the immediate reset has written the literal to memory.
\<close>

lemma failed_setup_after_late_reset:
  "setup_error (generic_loader_realize (sample_host False True)
       (config_literal4\<lparr>reg := Some ''bad''\<rparr>) (sample_world 1))
     = Some (UnsupportedRegister ''bad'')
   \<and> trace (setup_world (generic_loader_realize (sample_host False True)
       (config_literal4\<lparr>reg := Some ''bad''\<rparr>) (sample_world 1)))
     = [RegisterReset,
        AddressSpaceWrite 0 0x1000
          \<lparr>unspecified = False, secure = False, user = False, debug = False, requester_id = 0\<rparr>
          [0x88, 0x77, 0x66, 0x55]]
   \<and> reset_entries (setup_world (generic_loader_realize (sample_host False True)
       (config_literal4\<lparr>reg := Some ''bad''\<rparr>) (sample_world 1))) = 1"
  by (simp add: realize_defs reset_defs sample_defs setup_projections config_defs cpu_to_le64_def
        Let_def scan_defs reset_register_defaults_none host_bytes_def le_bytes_def upt_8)

subsection \<open>The image load, loader by loader\<close>

lemma load_file_outcome:
  assumes f: "file_name s = Some f" and ld: "load_file h s w = (err, s', w')"
  defines "asp \<equiv> (case cpu s of None \<Rightarrow> None | Some c \<Rightarrow> Some (cpu_as (cpus w ! c)))"
  defines "r1 \<equiv> load_elf_as h f (target_words_bigendian h) asp (mem w)"
  defines "r2 \<equiv> load_uimage_as h f asp (ld_mem r1)"
  defines "r3 \<equiv> load_targphys_hex_as h f asp (ld_mem r2)"
  defines "r4 \<equiv> load_image_targphys_as h f (addr s) (ram_size h) asp
                    (if force_raw s then mem w else ld_mem r3)"
  defines "e1 \<equiv> LoadElf f (target_words_bigendian h) asp (ld_size r1) (ld_entry r1)"
  defines "e2 \<equiv> LoadUimage f asp (ld_size r2) (ld_entry r2)"
  defines "e3 \<equiv> LoadHex f asp (ld_size r3) (ld_entry r3)"
  defines "e4 \<equiv> LoadRaw f (addr s) (ram_size h) asp (fst r4)"
  defines "evs \<equiv> new_events w w'"
  shows "force_raw s \<longrightarrow>
           evs = [e4] \<and> mem w' = snd r4 \<and> s' = s
           \<and> err = (if fst r4 < 0 then Some (CannotLoadImage f) else None)"
    and "\<not> force_raw s \<and> 0 \<le> ld_size r1 \<longrightarrow>
           evs = [e1] \<and> mem w' = ld_mem r1 \<and> err = None
           \<and> s' = s\<lparr>addr := (case ld_entry r1 of Some a \<Rightarrow> a | None \<Rightarrow> entry_indeterminate h)\<rparr>"
    and "\<not> force_raw s \<and> ld_size r1 < 0 \<and> 0 \<le> ld_size r2 \<longrightarrow>
           evs = [e1, e2] \<and> mem w' = ld_mem r2 \<and> err = None
           \<and> s' = s\<lparr>addr := (case ld_entry r2 of Some a \<Rightarrow> a | None \<Rightarrow>
                              (case ld_entry r1 of Some a \<Rightarrow> a | None \<Rightarrow> entry_indeterminate h))\<rparr>"
    and "\<not> force_raw s \<and> ld_size r1 < 0 \<and> ld_size r2 < 0 \<and> 0 \<le> ld_size r3 \<longrightarrow>
           evs = [e1, e2, e3] \<and> mem w' = ld_mem r3 \<and> err = None
           \<and> s' = s\<lparr>addr := (case ld_entry r3 of Some a \<Rightarrow> a | None \<Rightarrow>
                              (case ld_entry r2 of Some a \<Rightarrow> a | None \<Rightarrow>
                                 (case ld_entry r1 of Some a \<Rightarrow> a | None \<Rightarrow> entry_indeterminate h)))\<rparr>"
    and "\<not> force_raw s \<and> ld_size r1 < 0 \<and> ld_size r2 < 0 \<and> ld_size r3 < 0 \<longrightarrow>
           evs = [e1, e2, e3, e4] \<and> mem w' = snd r4 \<and> s' = s
           \<and> err = (if fst r4 < 0 then Some (CannotLoadImage f) else None)"
    and "cpus w' = cpus w \<and> reset_entries w' = reset_entries w"
  using f ld
  unfolding load_file_def Let_def evs_def new_events_def attempt_elf_def attempt_uimage_def
    attempt_hex_def asp_def r1_def r2_def r3_def r4_def e1_def e2_def e3_def e4_def
  by (auto split: prod.splits if_splits)

lemma qemu_register_reset_loader_mem [simp]:
  "mem (qemu_register_reset_loader w) = mem w"
  by (simp add: qemu_register_reset_loader_def)



subsection \<open>The image is loaded once, by setup\<close>

lemma load_file_memory:
  assumes f: "file_name s = Some f" and ld: "load_file h s w = (err, s', w')"
  defines "asp \<equiv> (case cpu s of None \<Rightarrow> None | Some c \<Rightarrow> Some (cpu_as (cpus w ! c)))"
  defines "r1 \<equiv> load_elf_as h f (target_words_bigendian h) asp (mem w)"
  defines "r2 \<equiv> load_uimage_as h f asp (ld_mem r1)"
  defines "r3 \<equiv> load_targphys_hex_as h f asp (ld_mem r2)"
  defines "r4 \<equiv> load_image_targphys_as h f (addr s) (ram_size h) asp
                    (if force_raw s then mem w else ld_mem r3)"
  shows "mem w' = (if force_raw s then snd r4
                   else if 0 \<le> ld_size r1 then ld_mem r1
                   else if 0 \<le> ld_size r2 then ld_mem r2
                   else if 0 \<le> ld_size r3 then ld_mem r3
                   else snd r4)"
    and "(err = None) = (if force_raw s then 0 \<le> fst r4
                          else 0 \<le> ld_size r1 \<or> 0 \<le> ld_size r2 \<or> 0 \<le> ld_size r3
                               \<or> 0 \<le> fst r4)"
  using f ld
  unfolding load_file_def Let_def attempt_elf_def attempt_uimage_def
    attempt_hex_def asp_def r1_def r2_def r3_def r4_def
  by (auto split: prod.splits if_splits)

lemma reset_keeps_memory:
  assumes "generic_loader_reset h s w = Inr w'" and "data_len s = 0"
  shows "mem w' = mem w"
proof (cases "cpu s")
  case None
  from generic_loader_reset_null [OF assms(1) None] show ?thesis by simp
next
  case (Some c)
  from generic_loader_reset_effect(2) [OF assms(1) Some] assms(2) show ?thesis by simp
qed



end
